theory Spec2Isabelle
  imports Main
begin



section \<open>JavaScript values\<close>

text \<open>
  The values the program handles at run time. Objects are modelled by the name of their
  constructor and the list of their own enumerable properties in insertion order (a plain
  object has constructor \<open>Object\<close>, an array has constructor \<open>Array\<close> and its indices
  as keys). Properties inherited from prototypes are not modelled, numbers are integers,
  and object identity is not modelled except for entity instances, which carry an
  object identifier.
\<close>

datatype docref = DocRef (ref_parent: string) (ref_id: string)

definition ref_path :: "docref \<Rightarrow> string" where
  "ref_path r = ref_parent r @ ''/'' @ ref_id r"

text \<open>
  An entity type (a class extending \<open>Model\<close>): its name, the name of the class it
  directly extends, its identity (two different classes may share a name) and the
  collection path of its configuration.
\<close>

record model_class =
  cls_name :: string
  cls_parent :: string
  cls_key :: nat
  cls_path :: string

datatype jsval =
    VUndefined
  | VNull
  | VBool bool
  | VNum int
  | VStr string
  | VObject string "(string \<times> jsval) list"
  | VModel (m_class: model_class) (m_oid: nat)
      (m_fields: "(string \<times> jsval) list") (m_changes: "(string \<times> jsval) list")
      (m_fireRef: "docref option") (m_docSnap: "docref option") (m_docId: "string option")
      (m_authValue: jsval)
  | VCollection (c_model: model_class) (c_path: string)
      (c_items: "jsval list") (c_deleted: "jsval list")

datatype js_error =
    Error string
  | TypeError string
  | ValidationError "(string \<times> string) list"

fun truthy :: "jsval \<Rightarrow> bool" where
  "truthy VUndefined = False"
| "truthy VNull = False"
| "truthy (VBool b) = b"
| "truthy (VNum n) = (n \<noteq> 0)"
| "truthy (VStr s) = (s \<noteq> [])"
| "truthy _ = True"

fun js_typeof :: "jsval \<Rightarrow> string" where
  "js_typeof VUndefined = ''undefined''"
| "js_typeof (VBool b) = ''boolean''"
| "js_typeof (VNum n) = ''number''"
| "js_typeof (VStr s) = ''string''"
| "js_typeof _ = ''object''"

text \<open>\<open>constructorName\<close> of utils.ts.\<close>

fun constructorName :: "jsval \<Rightarrow> string" where
  "constructorName VUndefined = ''Undefined''"
| "constructorName VNull = ''Undefined''"
| "constructorName (VBool b) = ''Boolean''"
| "constructorName (VNum n) = ''Number''"
| "constructorName (VStr s) = ''String''"
| "constructorName (VObject c ps) = c"
| "constructorName (VModel cls oid fs chs r sn di au) = cls_name cls"
| "constructorName (VCollection cls p xs ds) = ''Collection''"

text \<open>
  \<open>isModelInstance\<close> of utils.ts: the value is truthy and the class its constructor
  directly extends is named \<open>Model\<close>.
\<close>

fun isModelInstance :: "jsval \<Rightarrow> bool" where
  "isModelInstance (VModel cls oid fs chs r sn di au) = (cls_parent cls = ''Model'')"
| "isModelInstance _ = False"


fun is_entity :: "jsval \<Rightarrow> bool" where
  "is_entity (VModel cls oid fs chs r sn di au) = True"
| "is_entity _ = False"

text \<open>\<open>Model.getRef\<close> and \<open>Model.getId\<close>, on any value (\<open>None\<close> is \<open>null\<close>).\<close>

fun getRef :: "jsval \<Rightarrow> docref option" where
  "getRef (VModel cls oid fs chs r sn di au) = (case sn of Some s \<Rightarrow> Some s | None \<Rightarrow> r)"
| "getRef _ = None"

fun getId :: "jsval \<Rightarrow> string option" where
  "getId (VModel cls oid fs chs r sn di au) =
     (case getRef (VModel cls oid fs chs r sn di au) of
        Some ref \<Rightarrow> Some (ref_id ref)
      | None \<Rightarrow> di)"
| "getId _ = None"

section \<open>Query: pagination cursors\<close>

record query =
  q_model :: model_class
  q_getOne :: bool
  q_limit :: "int option"
  q_after :: "(jsval \<times> bool) option"
  q_before :: "(jsval \<times> bool) option"
  q_auth :: jsval
  q_path :: string

text \<open>\<open>Query.checkCursorValue\<close>: \<open>Inl\<close> is the error thrown.\<close>

definition checkCursorValue :: "query \<Rightarrow> jsval \<Rightarrow> js_error + unit" where
  "checkCursorValue q v =
     (if v \<noteq> VNull \<and> js_typeof v \<notin> set [''boolean'', ''number'', ''string''] then
        if \<not> isModelInstance v then
          Inl (Error ''Invalid cursor. Expecting boolean, number, string, null or Model'')
        else if m_docSnap v = None then
          Inl (Error ''Invalid model instance. It should come from a query.'')
        else if constructorName v \<noteq> cls_name (q_model q) then
          Inl (Error (''Invalid model type '' @ constructorName v @ ''. Expecting ''
                 @ cls_name (q_model q)))
        else Inr ()
      else Inr ())"

text \<open>
  The four cursor methods: each checks the value, then stores it in the descriptor with
  its inclusive flag and returns the resolver. None of them reads the store.
\<close>

definition q_after_m :: "query \<Rightarrow> jsval \<Rightarrow> js_error + query" where
  "q_after_m q v =
     (case checkCursorValue q v of Inl e \<Rightarrow> Inl e
      | Inr u \<Rightarrow> Inr (q\<lparr>q_after := Some (v, False)\<rparr>))"

definition q_startAt :: "query \<Rightarrow> jsval \<Rightarrow> js_error + query" where
  "q_startAt q v =
     (case checkCursorValue q v of Inl e \<Rightarrow> Inl e
      | Inr u \<Rightarrow> Inr (q\<lparr>q_after := Some (v, True)\<rparr>))"

definition q_endAt :: "query \<Rightarrow> jsval \<Rightarrow> js_error + query" where
  "q_endAt q v =
     (case checkCursorValue q v of Inl e \<Rightarrow> Inl e
      | Inr u \<Rightarrow> Inr (q\<lparr>q_before := Some (v, True)\<rparr>))"

definition q_endBefore :: "query \<Rightarrow> jsval \<Rightarrow> js_error + query" where
  "q_endBefore q v =
     (case checkCursorValue q v of Inl e \<Rightarrow> Inl e
      | Inr u \<Rightarrow> Inr (q\<lparr>q_before := Some (v, False)\<rparr>))"

text \<open>A literal scalar, as the cursor methods' signature lists them.\<close>

fun is_scalar :: "jsval \<Rightarrow> bool" where
  "is_scalar (VBool b) = True"
| "is_scalar (VNum n) = True"
| "is_scalar (VStr s) = True"
| "is_scalar _ = False"

section \<open>Schema rules\<close>

text \<open>
  A rule constraint is a bare number or boolean, or the pair \<open>[value, message]\<close>.
\<close>

datatype cval = CNum int | CBool bool

datatype constraint = Bare cval | WithMsg cval string

fun cval_truthy :: "cval \<Rightarrow> bool" where
  "cval_truthy (CNum n) = (n \<noteq> 0)"
| "cval_truthy (CBool b) = b"

text \<open>Truthiness of a rule property that may be absent; an array is always truthy.\<close>

fun constraint_truthy :: "constraint option \<Rightarrow> bool" where
  "constraint_truthy None = False"
| "constraint_truthy (Some (Bare c)) = cval_truthy c"
| "constraint_truthy (Some (WithMsg c m)) = True"

datatype vmessage = MsgNone | MsgStr string | MsgFun "string \<Rightarrow> jsval \<Rightarrow> string"

datatype custom_rule = CustomRule (cr_validator: "jsval \<Rightarrow> bool") (cr_message: vmessage)

datatype rules = Rules
    (r_type: "string option")
    (r_of: of_spec)
    (r_model: "model_class option")
    (r_enum: "jsval list option")
    (r_null: bool)
    (r_required: "constraint option")
    (r_unique: "constraint option")
    (r_min: "constraint option")
    (r_max: "constraint option")
    (r_minlength: "constraint option")
    (r_maxlength: "constraint option")
    (r_email: "constraint option")
    (r_url: "constraint option")
    (r_validate: "custom_rule option")
    (r_write: "string option")
and of_spec = OfNone | OfName string | OfSchema "(string \<times> rules) list"

type_synonym schema = "(string \<times> rules) list"

text \<open>The compiled rule \<open>{ type: t }\<close>, and a rule with no property at all.\<close>

definition rule_of_type :: "string \<Rightarrow> rules" where
  "rule_of_type t =
     Rules (Some t) OfNone None None False None None None None None None None None None None"

definition empty_rule :: rules where
  "empty_rule =
     Rules None OfNone None None False None None None None None None None None None None"

type_synonym props = "(string \<times> jsval) list"

text \<open>Reading a property: \<open>undefined\<close> when the object has no such property.\<close>

definition js_get :: "props \<Rightarrow> string \<Rightarrow> jsval" where
  "js_get ps k = (case map_of ps k of None \<Rightarrow> VUndefined | Some v \<Rightarrow> v)"

text \<open>
  Writing a property: an existing key keeps its position, a new key is appended
  (\<open>obj[k] = v\<close>).
\<close>

fun js_set :: "('k \<times> 'v) list \<Rightarrow> 'k \<Rightarrow> 'v \<Rightarrow> ('k \<times> 'v) list" where
  "js_set [] k v = [(k, v)]"
| "js_set ((k', v') # ps) k v = (if k' = k then (k, v) # ps else (k', v') # js_set ps k v)"

text \<open>
  The members that every object inherits from \<open>Object.prototype\<close>: each is a function,
  or, for \<open>__proto__\<close>, the prototype itself, so reading one of these names on an object
  that has no property of its own by that name gives a truthy value. Members added to the
  prototypes by other code are not modelled.
\<close>

definition object_prototype_names :: "string list" where
  "object_prototype_names = [''constructor'', ''__defineGetter__'', ''__defineSetter__'',
     ''hasOwnProperty'', ''__lookupGetter__'', ''__lookupSetter__'', ''isPrototypeOf'',
     ''propertyIsEnumerable'', ''toString'', ''valueOf'', ''__proto__'', ''toLocaleString'']"

definition proto_member :: "string \<Rightarrow> bool" where
  "proto_member k = (k \<in> set object_prototype_names)"

text \<open>
  The truthiness of \<open>obj[k]\<close> for an object given by its own properties: an inherited
  member is found when the object has no property of its own by that name.
\<close>

definition js_truthy_at :: "props \<Rightarrow> string \<Rightarrow> bool" where
  "js_truthy_at ps k = (case map_of ps k of Some v \<Rightarrow> truthy v | None \<Rightarrow> proto_member k)"

text \<open>
  \<open>obj[k] = v\<close> by assignment: the name \<open>__proto__\<close> reaches the setter inherited from
  \<open>Object.prototype\<close> and adds no property (the change of prototype it can make is not
  modelled).
\<close>

definition js_put :: "(string \<times> 'v) list \<Rightarrow> string \<Rightarrow> 'v \<Rightarrow> (string \<times> 'v) list" where
  "js_put ps k v = (if k = ''__proto__'' then ps else js_set ps k v)"

text \<open>\<open>Object.assign(a, b)\<close>, the result being the updated \<open>a\<close>: each own property of
  \<open>b\<close> is assigned.\<close>

definition js_assign :: "props \<Rightarrow> props \<Rightarrow> props" where
  "js_assign a b = fold (\<lambda>(k, v) acc. js_put acc k v) b a"

section \<open>Query: the bulk update decision\<close>

text \<open>The \<open>callbacks\<close> option: a boolean or the name of one hook.\<close>

datatype cb_opt = CbBool bool | CbName string

text \<open>
  The loop over the schema of \<open>Query.update\<close>: it stops at the first field for which
  \<open>(data[field] && (schema[field].type === 'Reference') || schema[field].unique)\<close> holds.
\<close>

fun update_schema_loop :: "schema \<Rightarrow> props \<Rightarrow> bool" where
  "update_schema_loop [] data = False"
| "update_schema_loop ((field, rules) # rest) data =
     (if (truthy (js_get data field) \<and> r_type rules = Some ''Reference'')
          \<or> constraint_truthy (r_unique rules)
      then True
      else update_schema_loop rest data)"

text \<open>
  \<open>useModel\<close> as \<open>Query.update\<close> computes it from the \<open>callbacks\<close> option (absent when
  the caller gave none), the hook names registered for the entity type, the schema and
  the update diff.
\<close>

definition update_useModel :: "cb_opt option \<Rightarrow> string list \<Rightarrow> schema \<Rightarrow> props \<Rightarrow> bool" where
  "update_useModel cbs callbacks schema data =
     (if cbs \<noteq> Some (CbBool False)
         \<and> list_ex (\<lambda>e. e \<in> set callbacks) [''beforeSave'', ''afterSave'']
      then True
      else update_schema_loop schema data)"

text \<open>
  The path \<open>Query.update\<close> then takes: entity instances saved one by one, or raw
  documents updated after one validation of a representative instance (none when the
  \<open>validate\<close> option is \<open>false\<close>).
\<close>

datatype update_plan = Materialize | RawData bool

definition update_plan_of :: "cb_opt option \<Rightarrow> bool \<Rightarrow> string list \<Rightarrow> schema \<Rightarrow> props \<Rightarrow> update_plan" where
  "update_plan_of cbs validate callbacks schema data =
     (if update_useModel cbs callbacks schema data then Materialize else RawData validate)"

text \<open>What the specification says decides the path.\<close>

definition affected_ref_or_unique :: "schema \<Rightarrow> props \<Rightarrow> bool" where
  "affected_ref_or_unique schema data =
     list_ex (\<lambda>(field, rules). map_of data field \<noteq> None
        \<and> (r_type rules = Some ''Reference'' \<or> constraint_truthy (r_unique rules))) schema"

definition hooks_enabled :: "cb_opt option \<Rightarrow> string list \<Rightarrow> bool" where
  "hooks_enabled cbs callbacks =
     (cbs \<noteq> Some (CbBool False) \<and> (''beforeSave'' \<in> set callbacks \<or> ''afterSave'' \<in> set callbacks))"

section \<open>The ordered entity container\<close>










section \<open>Flattening and expanding nested objects\<close>

text \<open>\<open>Array.prototype.join\<close> and \<open>String.prototype.split\<close> with a separator.\<close>

fun js_join :: "string \<Rightarrow> string list \<Rightarrow> string" where
  "js_join sep [] = []"
| "js_join sep [k] = k"
| "js_join sep (k # k' # ks) = k @ sep @ js_join sep (k' # ks)"

function split_go :: "string \<Rightarrow> string \<Rightarrow> string \<Rightarrow> string list" where
  "split_go sep [] cur = [cur]"
| "split_go sep (c # cs) cur =
     (if sep \<noteq> [] \<and> take (length sep) (c # cs) = sep
      then cur # split_go sep (drop (length sep) (c # cs)) []
      else split_go sep cs (cur @ [c]))"
  by pat_completeness auto
termination
  by (relation "measure (\<lambda>(sep, s, cur). length s)") auto

definition js_split :: "string \<Rightarrow> string \<Rightarrow> string list" where
  "js_split sep s = split_go sep s []"

text \<open>
  \<open>flattenObject\<close> of utils.ts; \<open>memo\<close> is the accumulator of the reduction. Reading
  \<open>.constructor\<close> of \<open>null\<close> or \<open>undefined\<close> throws a TypeError. The constructor of
  an object is \<open>Object\<close> or \<open>Array\<close> when the object was made by it and has no property
  of its own named \<open>constructor\<close>, which would be read instead.
\<close>

fun flatten_reduce :: "props \<Rightarrow> bool \<Rightarrow> string \<Rightarrow> string list \<Rightarrow> props \<Rightarrow> js_error + props" where
  "flatten_reduce [] excludeArray sep path memo = Inr memo"
| "flatten_reduce ((prop, v) # rest) excludeArray sep path memo =
     (case v of
        VUndefined \<Rightarrow> Inl (TypeError ''Cannot read properties of undefined'')
      | VNull \<Rightarrow> Inl (TypeError ''Cannot read properties of null'')
      | VObject c ps \<Rightarrow>
          if (c = ''Object'' \<or> (\<not> excludeArray \<and> c = ''Array''))
             \<and> map_of ps ''constructor'' = None then
            (case flatten_reduce ps excludeArray sep (path @ [prop]) [] of
               Inl e \<Rightarrow> Inl e
             | Inr sub \<Rightarrow> flatten_reduce rest excludeArray sep path (js_assign memo sub))
          else flatten_reduce rest excludeArray sep path
                 (js_assign memo [(js_join sep (path @ [prop]), v)])
      | _ \<Rightarrow> flatten_reduce rest excludeArray sep path
                 (js_assign memo [(js_join sep (path @ [prop]), v)]))"

definition flattenObject :: "props \<Rightarrow> bool \<Rightarrow> string \<Rightarrow> string list \<Rightarrow> js_error + props" where
  "flattenObject src excludeArray sep path = flatten_reduce src excludeArray sep path []"

text \<open>
  Reading a property of a value, as \<open>expandObject\<close> does on its accumulator
  (\<open>memo[prop]\<close>): the value has the property as its own, or it has none by that name
  but inherits a member of \<open>Object.prototype\<close>, as every object and every primitive
  does, or the read gives \<open>undefined\<close>. A plain object, an array or another object has
  its properties, an entity instance its fields, a primitive none. Writing a property of
  a primitive throws in strict mode. The length of an array or a string, the members that
  arrays, strings and entity instances inherit from their own classes, and access to the
  members of a container by key are not modelled.
\<close>

datatype lookup = Own jsval | Inherited | Absent

fun js_lookup :: "jsval \<Rightarrow> string \<Rightarrow> lookup" where
  "js_lookup (VObject c ps) k =
     (case map_of ps k of
        Some v \<Rightarrow> Own v
      | None \<Rightarrow> if proto_member k then Inherited else Absent)"
| "js_lookup (VModel cls oid fs chs r sn di au) k =
     (case map_of fs k of
        Some v \<Rightarrow> Own v
      | None \<Rightarrow> if proto_member k then Inherited else Absent)"
| "js_lookup _ k = (if proto_member k then Inherited else Absent)"

fun js_write :: "jsval \<Rightarrow> string \<Rightarrow> jsval \<Rightarrow> js_error + jsval" where
  "js_write (VObject c ps) k v = Inr (VObject c (js_set ps k v))"
| "js_write (VModel cls oid fs chs r sn di au) k v =
     Inr (VModel cls oid (js_set fs k v) (js_set chs k v) r sn di au)"
| "js_write _ k v = Inl (TypeError ''Cannot create property'')"

text \<open>
  The inner reduction of \<open>expandObject\<close> over the keys of one path: \<open>memo[prop] ||
  (memo[prop] = ...)\<close>. The function returns the accumulator it was given, updated;
  \<open>numeric\<close> is the test \<open>!isNaN(Number(k))\<close> on a key and \<open>expand_init\<close> the
  value assigned, which depends on the keys that remain. An inherited member is
  truthy (a function, or the prototype itself): nothing is assigned to the accumulator,
  and the rest of the path goes on inside the inherited member, outside the result (what
  it does there is not modelled).
\<close>

definition expand_init :: "(string \<Rightarrow> bool) \<Rightarrow> jsval \<Rightarrow> string list \<Rightarrow> jsval" where
  "expand_init numeric leaf ks =
     (if ks = [] then leaf
      else if numeric (hd ks) then VObject ''Array'' []
      else VObject ''Object'' [])"

fun expand_reduce :: "(string \<Rightarrow> bool) \<Rightarrow> jsval \<Rightarrow> string list \<Rightarrow> jsval \<Rightarrow> js_error + jsval" where
  "expand_reduce numeric leaf [] memo = Inr memo"
| "expand_reduce numeric leaf (prop # ks) memo =
     (let init = expand_init numeric leaf ks;
          create = (case js_write memo prop init of
                      Inl e \<Rightarrow> Inl e
                    | Inr memo' \<Rightarrow>
                        (case expand_reduce numeric leaf ks init of
                           Inl e \<Rightarrow> Inl e
                         | Inr init' \<Rightarrow> js_write memo' prop init'))
      in case js_lookup memo prop of
           Own cur \<Rightarrow>
             if truthy cur then
               (case expand_reduce numeric leaf ks cur of
                  Inl e \<Rightarrow> Inl e
                | Inr cur' \<Rightarrow> js_write memo prop cur')
             else create
         | Inherited \<Rightarrow> Inr memo
         | Absent \<Rightarrow> create)"

fun expand_loop :: "(string \<Rightarrow> bool) \<Rightarrow> string \<Rightarrow> props \<Rightarrow> jsval \<Rightarrow> js_error + jsval" where
  "expand_loop numeric sep [] result = Inr result"
| "expand_loop numeric sep ((key, v) # rest) result =
     (case expand_reduce numeric v (js_split sep key) result of
        Inl e \<Rightarrow> Inl e
      | Inr result' \<Rightarrow> expand_loop numeric sep rest result')"

fun props_of :: "jsval \<Rightarrow> props" where
  "props_of (VObject c ps) = ps"
| "props_of _ = []"

definition expandObject :: "(string \<Rightarrow> bool) \<Rightarrow> props \<Rightarrow> string \<Rightarrow> js_error + props" where
  "expandObject numeric obj sep =
     (case expand_loop numeric sep obj (VObject ''Object'' []) of
        Inl e \<Rightarrow> Inl e
      | Inr result \<Rightarrow> Inr (props_of result))"

text \<open>
  The objects of claim C8: at every level the keys are distinct, non-numeric, contain no
  dot and are not the name of a member inherited from \<open>Object.prototype\<close>;
  \<open>nested_ok\<close> adds that no nested plain object is empty and no leaf is \<open>null\<close> or
  \<open>undefined\<close>.
\<close>

fun keys_ok :: "(string \<Rightarrow> bool) \<Rightarrow> props \<Rightarrow> bool" where
  "keys_ok numeric [] = True"
| "keys_ok numeric ((k, v) # rest) =
     (\<not> numeric k \<and> CHR ''.'' \<notin> set k \<and> \<not> proto_member k \<and> k \<notin> fst ` set rest
      \<and> (case v of VObject c ps \<Rightarrow> (if c = ''Object'' then keys_ok numeric ps else True)
          | _ \<Rightarrow> True)
      \<and> keys_ok numeric rest)"

fun nested_ok :: "props \<Rightarrow> bool" where
  "nested_ok [] = True"
| "nested_ok ((k, v) # rest) =
     ((case v of VObject c ps \<Rightarrow> (if c = ''Object'' then ps \<noteq> [] \<and> nested_ok ps else True)
       | VNull \<Rightarrow> False | VUndefined \<Rightarrow> False
       | _ \<Rightarrow> True)
      \<and> nested_ok rest)"

text \<open>
  Decimal digit strings and the empty string: keys that \<open>Number\<close> maps to a number. It
  stands for the test \<open>!isNaN(Number(k))\<close> in the examples.
\<close>

definition decimal_key :: "string \<Rightarrow> bool" where
  "decimal_key s = list_all (\<lambda>c. c \<in> set ''0123456789'') s"


text \<open>A string between single quotes, as the messages have it.\<close>

definition js_quote :: "string \<Rightarrow> string" where
  "js_quote s = [CHR 0x27] @ s @ [CHR 0x27]"

definition type_error_msg :: "string \<Rightarrow> string \<Rightarrow> string" where
  "type_error_msg got expected =
     ''Invalid type '' @ js_quote got @ ''. Expecting type '' @ js_quote expected"

section \<open>The environment\<close>

text \<open>
  What the program reads from outside the functions modelled here: the schema registry,
  the store, and the built-in operations of the language on operands the model does not
  compute with.
  \<^item> \<open>schema_of\<close>: the compiled schema \<open>getSchema()\<close> returns for an entity type;
  \<^item> \<open>sub_schema_of\<close>: \<open>Storage.getModelSchema\<close> for the class of a SubModel rule,
    \<open>None\<close> when it has none;
  \<^item> \<open>unique_taken\<close>: whether the store holds a document of the type with this value in
    this field, other than the one with the given id (the query of \<open>Model.validate\<close>);
  \<^item> \<open>class_member\<close>: whether the instances of the class with this name have a member
    of this name that a \<open>for ... in\<close> loop does not visit, beyond the members of
    \<open>Object.prototype\<close>: a method of the class or of a class it extends, the length of
    an array or of a string;
  \<^item> \<open>key_numeric\<close>: \<open>!isNaN(Number(k))\<close> on a key;
  \<^item> \<open>regex_email\<close>, \<open>regex_url\<close>: the two regular-expression tests of
    ValidationRules.ts;
  \<^item> \<open>to_str\<close>: conversion of a value to a string in a template literal;
  \<^item> \<open>coerce_ge\<close>, \<open>coerce_le\<close>: the comparisons \<open>>=\<close> and \<open><=\<close> when an operand is
    not a number.
\<close>

record env =
  schema_of :: "model_class \<Rightarrow> schema"
  sub_schema_of :: "model_class \<Rightarrow> schema option"
  unique_taken :: "model_class \<Rightarrow> string \<Rightarrow> jsval \<Rightarrow> string option \<Rightarrow> bool"
  class_member :: "string \<Rightarrow> string \<Rightarrow> bool"
  key_numeric :: "string \<Rightarrow> bool"
  regex_email :: "jsval \<Rightarrow> bool"
  regex_url :: "jsval \<Rightarrow> bool"
  to_str :: "jsval \<Rightarrow> string"
  coerce_ge :: "jsval \<Rightarrow> jsval \<Rightarrow> bool"
  coerce_le :: "jsval \<Rightarrow> jsval \<Rightarrow> bool"

section \<open>Schema.flatten\<close>

text \<open>
  The types of \<open>Schema.types\<close>, and \<open>Schema.flatten\<close>. A rule is kept under its dotted
  path when its type is one of them and it has no \<open>of\<close>; otherwise its \<open>of\<close> is
  flattened in its place. An \<open>of\<close> that is a type name is a string, whose own
  properties are its characters: each character is kept, as it is, under the path
  followed by its index. So the flattened schema maps a path to a rule (\<open>Some\<close>) or to
  a character (\<open>None\<close>). \<open>Object.assign({}, src)\<close> copies by assignment, so a property
  named \<open>__proto__\<close> is not copied.
\<close>

definition schema_types :: "string list" where
  "schema_types = [''String'', ''Number'', ''Date'', ''Boolean'', ''Array'', ''Object'',
     ''Reference'', ''Collection'', ''GeoPoint'', ''Timestamp'', ''SubModel'']"

fun of_truthy :: "of_spec \<Rightarrow> bool" where
  "of_truthy OfNone = False"
| "of_truthy (OfName n) = (n \<noteq> [])"
| "of_truthy (OfSchema sch) = True"

fun type_in_types :: "string option \<Rightarrow> bool" where
  "type_in_types None = False"
| "type_in_types (Some t) = (t \<in> set schema_types)"

type_synonym flat_schema = "(string \<times> rules option) list"

text \<open>Decimal notation of an index.\<close>

fun digit_char :: "nat \<Rightarrow> char" where
  "digit_char n = (''0123456789'' ! (n mod 10))"

function show_nat :: "nat \<Rightarrow> string" where
  "show_nat n = (if n < 10 then [digit_char n] else show_nat (n div 10) @ [digit_char n])"
  by pat_completeness auto
termination
  by (relation "measure id") auto

text \<open>\<open>Schema.flatten\<close> of a type name: one entry for each character.\<close>

definition flatten_name :: "string \<Rightarrow> string list \<Rightarrow> flat_schema" where
  "flatten_name n path =
     map (\<lambda>i. (js_join ''.'' (path @ [show_nat i]), None)) [0..<length n]"

lemma of_schema_size:
  "r_of r = OfSchema sub \<Longrightarrow> size_list (size_prod (\<lambda>x. 0) size) sub < size r"
  by (cases r) simp

function schema_flatten :: "schema \<Rightarrow> string list \<Rightarrow> flat_schema \<Rightarrow> flat_schema" where
  "schema_flatten [] path memo = memo"
| "schema_flatten ((key, r) # rest) path memo =
     (if key = ''__proto__'' then schema_flatten rest path memo
      else if type_in_types (r_type r) \<and> \<not> of_truthy (r_of r)
      then schema_flatten rest path (fold (\<lambda>(k, v) acc. js_put acc k v)
             [(js_join ''.'' (path @ [key]), Some r)] memo)
      else (case r_of r of
              OfSchema sub \<Rightarrow>
                schema_flatten rest path (fold (\<lambda>(k, v) acc. js_put acc k v)
                  (schema_flatten sub (path @ [key]) []) memo)
            | OfName n \<Rightarrow>
                schema_flatten rest path (fold (\<lambda>(k, v) acc. js_put acc k v)
                  (flatten_name n (path @ [key])) memo)
            | OfNone \<Rightarrow> schema_flatten rest path memo))"
  by pat_completeness auto
termination
  by (relation "measure (\<lambda>(sch, path, memo). size_list (size_prod (\<lambda>x. 0) size) sch)")
    (auto dest: of_schema_size)

text \<open>
  \<open>Schema.flatten(rules.of)\<close> as the Object case of \<open>check\<close> calls it, the test
  \<open>rules.of && Object.keys(rules.of).length\<close> that guards the call, and the two parts
  of a flattened schema: its rules and the paths that hold a character.
\<close>

fun flatten_of :: "of_spec \<Rightarrow> flat_schema" where
  "flatten_of OfNone = []"
| "flatten_of (OfName n) = flatten_name n []"
| "flatten_of (OfSchema sub) = schema_flatten sub [] []"

fun of_has_keys :: "of_spec \<Rightarrow> bool" where
  "of_has_keys OfNone = False"
| "of_has_keys (OfName n) = (length n \<noteq> 0)"
| "of_has_keys (OfSchema sub) = (length sub \<noteq> 0)"

fun flat_rules :: "flat_schema \<Rightarrow> schema" where
  "flat_rules [] = []"
| "flat_rules ((k, Some r) # rest) = (k, r) # flat_rules rest"
| "flat_rules ((k, None) # rest) = flat_rules rest"

fun flat_chars :: "flat_schema \<Rightarrow> string list" where
  "flat_chars [] = []"
| "flat_chars ((k, Some r) # rest) = flat_chars rest"
| "flat_chars ((k, None) # rest) = k # flat_chars rest"

section \<open>Validator\<close>

record voptions =
  newDocument :: bool
  authValue :: jsval

record vresult =
  vr_valid :: bool
  vr_errors :: "(string \<times> string) list"
  vr_data :: props

text \<open>The state of the loop of \<open>check\<close>: \<open>errors\<close>, \<open>cleaned\<close> and the data object.\<close>

type_synonym vstate = "(string \<times> string) list \<times> props \<times> props"

text \<open>\<open>Validator.constraint\<close>: the value and the message of a constraint.\<close>

fun constraint_value :: "constraint \<Rightarrow> cval" where
  "constraint_value (Bare c) = c"
| "constraint_value (WithMsg c m) = c"

fun constraint_message :: "constraint \<Rightarrow> string \<Rightarrow> string" where
  "constraint_message (Bare c) message = message"
| "constraint_message (WithMsg c m) message = m"

text \<open>
  The members that a value inherits: those of \<open>Object.prototype\<close>, and, unless it is a
  plain object, those of its class.
\<close>

definition inherited_by :: "env \<Rightarrow> jsval \<Rightarrow> string \<Rightarrow> bool" where
  "inherited_by e value k =
     (proto_member k
      \<or> (constructorName value \<noteq> ''Object'' \<and> class_member e (constructorName value) k))"

text \<open>
  The first loop of \<open>check\<close>: required fields, in new-document mode. The data object is
  given by the properties that the main loop visits (\<open>data\<close>) and by the names of the
  members it inherits (\<open>inh\<close>): \<open>data[field]\<close> is not \<open>undefined\<close> when the data has no
  such property but inherits a member of that name.
\<close>

fun required_pass :: "(string \<Rightarrow> bool) \<Rightarrow> schema \<Rightarrow> props \<Rightarrow> (string \<times> string) list
    \<Rightarrow> (string \<times> string) list" where
  "required_pass inh [] data errors = errors"
| "required_pass inh ((field, rules) # rest) data errors =
     (if constraint_truthy (r_required rules)
         \<and> (case map_of data field of
               Some v \<Rightarrow> v = VUndefined \<or> v = VStr []
             | None \<Rightarrow> \<not> inh field)
      then (case r_required rules of
              Some c \<Rightarrow>
                if constraint_value c = CBool True
                then required_pass inh rest data
                       (js_put errors field (constraint_message c ''This field is required''))
                else required_pass inh rest data errors
            | None \<Rightarrow> required_pass inh rest data errors)
      else required_pass inh rest data errors)"

definition init_state :: "(string \<Rightarrow> bool) \<Rightarrow> schema \<Rightarrow> props \<Rightarrow> voptions \<Rightarrow> vstate" where
  "init_state inh schema data options =
     ((if newDocument options then required_pass inh schema data [] else []), [], data)"

definition transform_names :: "string list" where
  "transform_names = [''NumericIncrementTransform'', ''DeleteTransform'',
     ''ArrayUnionTransform'', ''ArrayRemoveTransform'', ''ServerTimestampTransform'']"

text \<open>
  The type the rule is checked with: the rule's own, or, when it has none, the type of the
  value, which the source writes into the rule object (\<open>rules.type =
  constructorName(value)\<close>). The model reads every rule as the schema gives it, which
  is what the source does as long as a rule object without a type is not reached a
  second time, by another field that shares it or by a later call. The properties of
  \<open>check\<close> below are about schemas whose rules have a type.
\<close>

definition effective_type :: "rules \<Rightarrow> jsval \<Rightarrow> string" where
  "effective_type rules value =
     (case r_type rules of
        None \<Rightarrow> constructorName value
      | Some t \<Rightarrow> if t = [] then constructorName value else t)"

text \<open>
  The head of the loop body of \<open>check\<close>, up to the type check: the field is skipped, or
  settled (an error or a sanitized value recorded), or goes on to the composite-type
  switch with its rule and type, or the call throws. \<open>errors\<close> is a plain object, so
  \<open>errors[field] !== undefined\<close> also holds when \<open>field\<close> names a member inherited
  from \<open>Object.prototype\<close>, and such a field is skipped. \<open>chars\<close> are the fields whose
  rule is a character of a type name (see \<open>Schema.flatten\<close>): writing the type into
  such a rule throws in strict mode.
\<close>

datatype pre_result = PreDone vstate | PreGo rules string | PreFail js_error

definition pre_field :: "schema \<Rightarrow> string list \<Rightarrow> string \<Rightarrow> jsval \<Rightarrow> vstate \<Rightarrow> pre_result" where
  "pre_field schema chars field value st =
     (case st of (errors, cleaned, data) \<Rightarrow>
        if map_of errors field \<noteq> None \<or> proto_member field then PreDone st
        else
          (case map_of schema field of
             None \<Rightarrow>
               if field \<notin> set chars then PreDone st
               else if value = VNull then
                 PreDone (js_set errors field ''Null value not allowed for this field'',
                          cleaned, data)
               else if value = VUndefined then
                 PreDone (js_set errors field ''Value is undefined'', cleaned, data)
               else PreFail (TypeError ''Cannot create property type on string'')
           | Some rules \<Rightarrow>
               if value = VNull then
                 (if r_null rules
                  then PreDone (errors, js_set cleaned field (js_get data field), data)
                  else PreDone (js_set errors field ''Null value not allowed for this field'',
                                cleaned, data))
               else if value = VUndefined then
                 PreDone (js_set errors field ''Value is undefined'', cleaned, data)
               else if constructorName value \<in> set transform_names then
                 PreDone (errors, js_set cleaned field (js_get data field), data)
               else if effective_type rules value \<noteq> ''Reference''
                     \<and> effective_type rules value \<noteq> ''SubModel''
                     \<and> constructorName value \<noteq> effective_type rules value then
                 PreDone (js_set errors field
                            (type_error_msg (constructorName value) (effective_type rules value)),
                          cleaned, data)
               else PreGo rules (effective_type rules value)))"

text \<open>The built-in rules of ValidationRules.ts, in their order.\<close>

definition builtin_names :: "string list" where
  "builtin_names = [''min'', ''max'', ''minlength'', ''maxlength'', ''email'', ''url'']"

definition builtin_of :: "rules \<Rightarrow> string \<Rightarrow> constraint option" where
  "builtin_of rules name =
     (if name = ''min'' then r_min rules
      else if name = ''max'' then r_max rules
      else if name = ''minlength'' then r_minlength rules
      else if name = ''maxlength'' then r_maxlength rules
      else if name = ''email'' then r_email rules
      else if name = ''url'' then r_url rules
      else None)"

fun cval_js :: "cval \<Rightarrow> jsval" where
  "cval_js (CNum n) = VNum n"
| "cval_js (CBool b) = VBool b"

text \<open>
  \<open>a >= b\<close> and \<open>a <= b\<close>. A number of the source is a double; \<open>VNum n\<close> stands for
  the double that is the integer \<open>n\<close>, which exists for every \<open>n\<close> between \<open>-2^53\<close> and
  \<open>2^53\<close>. The model compares two such numbers itself; any other comparison is the
  environment's.
\<close>

definition safe_integer :: "int \<Rightarrow> bool" where
  "safe_integer n = (- (2 ^ 53) \<le> n \<and> n \<le> 2 ^ 53)"

definition js_ge :: "env \<Rightarrow> jsval \<Rightarrow> jsval \<Rightarrow> bool" where
  "js_ge e a b =
     (case (a, b) of
        (VNum x, VNum y) \<Rightarrow>
          if safe_integer x \<and> safe_integer y then y \<le> x else coerce_ge e a b
      | _ \<Rightarrow> coerce_ge e a b)"

definition js_le :: "env \<Rightarrow> jsval \<Rightarrow> jsval \<Rightarrow> bool" where
  "js_le e a b =
     (case (a, b) of
        (VNum x, VNum y) \<Rightarrow>
          if safe_integer x \<and> safe_integer y then x \<le> y else coerce_le e a b
      | _ \<Rightarrow> coerce_le e a b)"

text \<open>\<open>value.length\<close>.\<close>

fun js_length :: "jsval \<Rightarrow> jsval" where
  "js_length (VStr s) = VNum (int (length s))"
| "js_length (VObject c ps) = (if c = ''Array'' then VNum (int (length ps)) else js_get ps ''length'')"
| "js_length (VCollection cls p xs ds) = VNum (int (length xs))"
| "js_length (VModel cls oid fs chs r sn di au) = js_get fs ''length''"
| "js_length _ = VUndefined"

definition builtin_validator :: "env \<Rightarrow> string \<Rightarrow> jsval \<Rightarrow> cval \<Rightarrow> bool" where
  "builtin_validator e name value c =
     (if name = ''min'' then js_ge e value (cval_js c)
      else if name = ''max'' then js_le e value (cval_js c)
      else if name = ''minlength'' then js_ge e (js_length value) (cval_js c)
      else if name = ''maxlength'' then js_le e (js_length value) (cval_js c)
      else if name = ''email'' then (if c = CBool False then True else regex_email e value)
      else if name = ''url'' then (if c = CBool False then True else regex_url e value)
      else True)"

definition builtin_message :: "env \<Rightarrow> string \<Rightarrow> string \<Rightarrow> jsval \<Rightarrow> cval \<Rightarrow> string" where
  "builtin_message e name field value c =
     (if name = ''min'' then
        ''The field '' @ js_quote field @ '' must be greater than '' @ to_str e (cval_js c)
      else if name = ''max'' then
        ''The field '' @ js_quote field @ '' must be less than '' @ to_str e (cval_js c)
      else if name = ''minlength'' then
        ''The field '' @ js_quote field @ '' must be at least '' @ to_str e (cval_js c)
          @ '' characters long''
      else if name = ''maxlength'' then
        ''The field '' @ js_quote field @ '' must be less than '' @ to_str e (cval_js c)
          @ '' characters long''
      else if name = ''email'' then ''The email '' @ js_quote (to_str e value) @ '' is invalid''
      else ''The URL '' @ js_quote (to_str e value) @ '' is invalid'')"

text \<open>The loop over the built-in rules: the message of the first one that fails.\<close>

fun builtin_loop :: "env \<Rightarrow> string list \<Rightarrow> rules \<Rightarrow> string \<Rightarrow> jsval \<Rightarrow> string option" where
  "builtin_loop e [] rules field value = None"
| "builtin_loop e (name # names) rules field value =
     (case builtin_of rules name of
        None \<Rightarrow> builtin_loop e names rules field value
      | Some c \<Rightarrow>
          if constraint_truthy (Some c) then
            (if \<not> builtin_validator e name value (constraint_value c)
             then Some (constraint_message c
                          (builtin_message e name field value (constraint_value c)))
             else builtin_loop e names rules field value)
          else builtin_loop e names rules field value)"

text \<open>
  \<open>rules.enum.includes(value)\<close>: primitives are compared by value; an object is equal
  only to itself, which the model cannot tell, so it is never found.
\<close>

fun is_primitive :: "jsval \<Rightarrow> bool" where
  "is_primitive (VObject c ps) = False"
| "is_primitive (VModel cls oid fs chs r sn di au) = False"
| "is_primitive (VCollection cls p xs ds) = False"
| "is_primitive _ = True"

definition js_includes :: "jsval list \<Rightarrow> jsval \<Rightarrow> bool" where
  "js_includes xs v = (is_primitive v \<and> v \<in> set xs)"

definition custom_message :: "custom_rule \<Rightarrow> string \<Rightarrow> jsval \<Rightarrow> string" where
  "custom_message cr field value =
     (case cr_message cr of
        MsgNone \<Rightarrow> ''Invalid value''
      | MsgStr m \<Rightarrow> m
      | MsgFun f \<Rightarrow> f field value)"

text \<open>
  The tail of the loop body, after the composite-type switch: enum, built-in rules, custom
  rule, admin rule. \<open>value\<close> is the value as the switch left it; the result is the error
  message recorded for the field, if any.
\<close>

definition post_error :: "env \<Rightarrow> voptions \<Rightarrow> string \<Rightarrow> rules \<Rightarrow> jsval \<Rightarrow> string option" where
  "post_error e options field rules value =
     (case (case r_enum rules of
              None \<Rightarrow> None
            | Some vs \<Rightarrow>
                if \<not> js_includes vs value
                then Some (''Invalid value '' @ js_quote (to_str e value) @ ''. Allowed values [''
                       @ js_quote (js_join ''|'' (map (to_str e) vs)) @ '']'')
                else None) of
        Some m \<Rightarrow> Some m
      | None \<Rightarrow>
          (case builtin_loop e builtin_names rules field value of
             Some m \<Rightarrow> Some m
           | None \<Rightarrow>
               (case (case r_validate rules of
                        None \<Rightarrow> None
                      | Some cr \<Rightarrow>
                          if \<not> cr_validator cr value
                          then Some (custom_message cr field value) else None) of
                  Some m \<Rightarrow> Some m
                | None \<Rightarrow>
                    if r_write rules = Some ''admin'' \<and> authValue options \<noteq> VNull
                       \<and> authValue options \<noteq> VUndefined \<and> authValue options \<noteq> VBool True
                    then Some ''Admin permission required''
                    else None)))"

text \<open>
  What the composite-type switch hands back: the errors it recorded, in order, whether the
  field goes on (it does not after \<open>continue fields\<close>), the value it leaves in \<open>value\<close>,
  and the value it stored in \<open>data[field]\<close>, if it did.
\<close>

datatype comp_result = CompResult
  (cr_errors: "(string \<times> string) list") (cr_ok: bool) (cr_value: jsval)
  (cr_data: "jsval option")

definition apply_errors :: "(string \<times> string) list \<Rightarrow> (string \<times> string) list \<Rightarrow> (string \<times> string) list" where
  "apply_errors errors new = fold (\<lambda>(k, m) acc. js_set acc k m) new errors"

definition post_field :: "env \<Rightarrow> voptions \<Rightarrow> string \<Rightarrow> rules \<Rightarrow> comp_result \<Rightarrow> vstate \<Rightarrow> vstate" where
  "post_field e options field rules r st =
     (case st of (errors, cleaned, data) \<Rightarrow>
        let errors1 = apply_errors errors (cr_errors r);
            data1 = (case cr_data r of None \<Rightarrow> data | Some d \<Rightarrow> js_set data field d)
        in if \<not> cr_ok r then (errors1, cleaned, data1)
           else (case post_error e options field rules (cr_value r) of
                   Some m \<Rightarrow> (js_set errors1 field m, cleaned, data1)
                 | None \<Rightarrow> (errors1, js_set cleaned field (js_get data1 field), data1)))"

definition finish_check :: "vstate \<Rightarrow> vresult" where
  "finish_check st =
     (case st of (errors, cleaned, data) \<Rightarrow>
        \<lparr>vr_valid = (length errors < 1), vr_errors = errors, vr_data = cleaned\<rparr>)"

text \<open>
  The second half of \<open>Model.validate\<close>: the unique rule, on the result of \<open>check\<close> and
  the data object as \<open>check\<close> left it.
\<close>

fun unique_pass :: "env \<Rightarrow> model_class \<Rightarrow> string option \<Rightarrow> bool \<Rightarrow> schema \<Rightarrow> props \<Rightarrow> vresult \<Rightarrow> vresult" where
  "unique_pass e cls docid newDoc [] data result = result"
| "unique_pass e cls docid newDoc ((field, rules) # rest) data result =
     (case r_unique rules of
        None \<Rightarrow> unique_pass e cls docid newDoc rest data result
      | Some c \<Rightarrow>
          if js_truthy_at data field
             \<and> (case map_of (vr_errors result) field of
                   None \<Rightarrow> \<not> proto_member field
                 | Some m \<Rightarrow> m = [])
          then
            (if constraint_value c \<noteq> CBool True
             then unique_pass e cls docid newDoc rest data result
             else if unique_taken e cls field (js_get data field)
                       (if newDoc then None else docid)
             then unique_pass e cls docid newDoc rest data
                    (result\<lparr>vr_errors := js_set (vr_errors result) field
                               (constraint_message c (''This '' @ field @ '' is already taken'')),
                            vr_valid := False\<rparr>)
             else unique_pass e cls docid newDoc rest data result)
          else unique_pass e cls docid newDoc rest data result)"

text \<open>The options \<open>Model.validate\<close> passes to \<open>check\<close>.\<close>

definition validate_options :: "jsval \<Rightarrow> voptions" where
  "validate_options v = \<lparr>newDocument = (getRef v = None), authValue = m_authValue v\<rparr>"

definition finish_validate :: "env \<Rightarrow> jsval \<Rightarrow> vstate \<Rightarrow> vresult" where
  "finish_validate e v st =
     (case st of (errors, cleaned, data) \<Rightarrow>
        unique_pass e (m_class v) (getId v) (getRef v = None) (schema_of e (m_class v)) data
          (finish_check st))"

text \<open>Errors of a nested result, under the prefix of the field.\<close>

definition prefixed :: "string \<Rightarrow> (string \<times> string) list \<Rightarrow> (string \<times> string) list" where
  "prefixed pre errs = map (\<lambda>(k, m). (pre @ k, m)) errs"

text \<open>
  The properties a \<open>for ... in\<close> loop visits: the own properties of an object, the fields
  of an entity instance, the indices of a container. The indices of a string, which the
  loop visits too, are not modelled: they matter to \<open>check\<close> only when a string is
  checked against a schema that declares a field named by an index.
\<close>

fun own_props :: "jsval \<Rightarrow> props" where
  "own_props (VObject c ps) = ps"
| "own_props (VModel cls oid fs chs r sn di au) = fs"
| "own_props (VCollection cls p xs ds) = zip (map show_nat [0..<length xs]) xs"
| "own_props _ = []"

text \<open>A measure of values for the recursion of \<open>check\<close>: the number of nodes.\<close>

fun vsize :: "jsval \<Rightarrow> nat" where
  "vsize (VObject c ps) = Suc (sum_list (map (\<lambda>kv. Suc (vsize (snd kv))) ps))"
| "vsize (VModel cls oid fs chs r sn di au) =
     Suc (sum_list (map (\<lambda>kv. Suc (vsize (snd kv))) fs)
          + sum_list (map (\<lambda>kv. Suc (vsize (snd kv))) chs) + vsize au)"
| "vsize (VCollection cls p xs ds) =
     Suc (sum_list (map (\<lambda>x. Suc (vsize x)) xs) + sum_list (map (\<lambda>x. Suc (vsize x)) ds))"
| "vsize _ = 0"

definition dsize :: "props \<Rightarrow> nat" where
  "dsize ps = sum_list (map (\<lambda>kv. Suc (vsize (snd kv))) ps)"


fun of_name :: "of_spec \<Rightarrow> string option" where
  "of_name (OfName n) = Some n"
| "of_name _ = None"

fun array_type_check :: "string \<Rightarrow> of_spec \<Rightarrow> env \<Rightarrow> props \<Rightarrow> (string \<times> string) list" where
  "array_type_check field ofs e [] = []"
| "array_type_check field ofs e ((i, item) # rest) =
     (if Some (constructorName item) \<noteq> of_name ofs
      then [(field @ ''['' @ i @ '']'',
             type_error_msg (constructorName item)
               (case ofs of OfName n \<Rightarrow> n | OfNone \<Rightarrow> ''undefined''
                | OfSchema s \<Rightarrow> ''[object Object]''))]
      else array_type_check field ofs e rest)"

text \<open>
  The loop of \<open>check\<close> over the fields of the data, the composite-type switch of its
  body, and the loop over the members of a Collection or of an Array of References (the
  same code in both cases). \<open>item.validate()\<close> and \<open>value.validate()\<close> are
  \<open>Model.validate\<close>: \<open>check\<close> on the instance's change-set, then the unique rule.
  \<open>chars\<close> are the fields whose rule is a character; a schema that was not flattened
  has none. The fields of the data are visited in the order of the list.
\<close>

function (sequential)
  check_fields :: "env \<Rightarrow> schema \<Rightarrow> string list \<Rightarrow> voptions \<Rightarrow> props \<Rightarrow> vstate
      \<Rightarrow> js_error + vstate"
  and composite :: "env \<Rightarrow> voptions \<Rightarrow> string \<Rightarrow> rules \<Rightarrow> string \<Rightarrow> jsval \<Rightarrow> js_error + comp_result"
  and validate_items :: "env \<Rightarrow> string \<Rightarrow> string \<Rightarrow> props \<Rightarrow> (string \<times> string) list
      \<Rightarrow> js_error + ((string \<times> string) list \<times> bool)"
where
  "check_fields e schema chars options [] st = Inr st"
| "check_fields e schema chars options ((field, value) # rest) st =
     (case pre_field schema chars field value st of
        PreDone st' \<Rightarrow> check_fields e schema chars options rest st'
      | PreFail err \<Rightarrow> Inl err
      | PreGo rules rtype \<Rightarrow>
          (case composite e options field rules rtype value of
             Inl err \<Rightarrow> Inl err
           | Inr r \<Rightarrow>
               check_fields e schema chars options rest
                 (post_field e options field rules r st)))"
| "composite e options field rules rtype value =
     (if rtype = ''Reference'' then
        (case r_model rules of
           None \<Rightarrow> Inl (TypeError ''Cannot read properties of undefined'')
         | Some m \<Rightarrow>
             if constructorName value \<noteq> cls_name m then
               Inr (CompResult [(field, type_error_msg (constructorName value) (cls_name m))]
                      False value None)
             else
               (case value of
                  VModel cls oid fs chs r sn di au \<Rightarrow>
                    (case check_fields e (schema_of e cls) [] (validate_options value) chs
                            (init_state proto_member (schema_of e cls) chs (validate_options value)) of
                       Inl err \<Rightarrow> Inl err
                     | Inr st \<Rightarrow>
                         Inr (CompResult
                                (prefixed (field @ ''.'') (vr_errors (finish_validate e value st)))
                                (vr_valid (finish_validate e value st)) value None))
                | _ \<Rightarrow> Inl (TypeError ''value.validate is not a function'')))
      else if rtype = ''Collection'' then
        (case r_model rules of
           None \<Rightarrow>
             if own_props value = [] then Inr (CompResult [] True value None)
             else Inl (TypeError ''Cannot read properties of undefined'')
         | Some m \<Rightarrow>
             (case validate_items e field (cls_name m) (own_props value) [] of
                Inl err \<Rightarrow> Inl err
              | Inr (errs, ok) \<Rightarrow> Inr (CompResult errs ok value None)))
      else if rtype = ''SubModel'' then
        (case r_model rules of
           None \<Rightarrow> Inl (TypeError ''Cannot read properties of undefined'')
         | Some m \<Rightarrow>
             (case sub_schema_of e m of
                None \<Rightarrow> Inr (CompResult [] True value None)
              | Some sub \<Rightarrow>
                  (case check_fields e sub [] options (own_props value)
                          (init_state (inherited_by e value) sub (own_props value) options) of
                     Inl err \<Rightarrow> Inl err
                   | Inr st \<Rightarrow>
                       Inr (CompResult
                              (prefixed (field @ ''.'') (vr_errors (finish_check st)))
                              (vr_valid (finish_check st)) value
                              (if vr_valid (finish_check st)
                               then Some (VObject ''Object'' (vr_data (finish_check st)))
                               else None)))))
      else if rtype = ''Object'' then
        (if \<not> of_has_keys (r_of rules) then Inr (CompResult [] True value None)
         else
           (case flattenObject (own_props value) True ''.'' [] of
              Inl err \<Rightarrow> Inl err
            | Inr flat \<Rightarrow>
                (case check_fields e (flat_rules (flatten_of (r_of rules)))
                        (flat_chars (flatten_of (r_of rules))) options flat
                        (init_state proto_member (flat_rules (flatten_of (r_of rules))) flat options) of
                   Inl err \<Rightarrow> Inl err
                 | Inr st \<Rightarrow>
                     if \<not> vr_valid (finish_check st) then
                       Inr (CompResult
                              (prefixed (field @ ''.'') (vr_errors (finish_check st)))
                              False value None)
                     else
                       (case expandObject (key_numeric e) (snd (snd st)) ''.'' of
                          Inl err \<Rightarrow> Inl err
                        | Inr ex \<Rightarrow>
                            Inr (CompResult
                                   (prefixed (field @ ''.'') (vr_errors (finish_check st)))
                                   True (VObject ''Object'' ex) None)))))
      else if rtype = ''Array'' then
        (if of_name (r_of rules) = Some ''Reference'' then
           (case r_model rules of
              None \<Rightarrow>
                if own_props value = [] then Inr (CompResult [] True value None)
                else Inl (TypeError ''Cannot read properties of undefined'')
            | Some m \<Rightarrow>
                (case validate_items e field (cls_name m) (own_props value) [] of
                   Inl err \<Rightarrow> Inl err
                 | Inr (errs, ok) \<Rightarrow> Inr (CompResult errs ok value None)))
         else
           Inr (CompResult (array_type_check field (r_of rules) e (own_props value))
                  (array_type_check field (r_of rules) e (own_props value) = []) value None))
      else Inr (CompResult [] True value None))"
| "validate_items e field mname [] errs = Inr (errs, True)"
| "validate_items e field mname ((i, item) # rest) errs =
     (if constructorName item \<noteq> mname then
        Inr (errs @ [(field @ ''['' @ i @ '']'', type_error_msg (constructorName item) mname)],
             False)
      else
        (case item of
           VModel cls oid fs chs r sn di au \<Rightarrow>
             (case check_fields e (schema_of e cls) [] (validate_options item) chs
                     (init_state proto_member (schema_of e cls) chs (validate_options item)) of
                Inl err \<Rightarrow> Inl err
              | Inr st \<Rightarrow>
                  if \<not> vr_valid (finish_validate e item st) then
                    Inr (errs @ prefixed (field @ ''['' @ i @ '']'')
                                 (vr_errors (finish_validate e item st)), False)
                  else
                    validate_items e field mname rest
                      (errs @ prefixed (field @ ''['' @ i @ '']'')
                                (vr_errors (finish_validate e item st))))
         | _ \<Rightarrow> Inl (TypeError ''item.validate is not a function'')))"
  by pat_completeness auto


text \<open>The recursion ends: every nested call works on strictly fewer nodes.\<close>

lemma dsize_Cons [simp]: "dsize ((k, v) # ps) = Suc (vsize v + dsize ps)"
  by (simp add: dsize_def)

lemma dsize_Nil [simp]: "dsize [] = 0"
  by (simp add: dsize_def)

lemma dsize_append [simp]: "dsize (a @ b) = dsize a + dsize b"
  by (simp add: dsize_def)

lemma dsize_js_set: "dsize (js_set m k v) \<le> dsize m + Suc (vsize v)"
  by (induction m) auto

lemma dsize_js_put: "dsize (js_put m k v) \<le> dsize m + Suc (vsize v)"
  using dsize_js_set [of m k v] by (simp add: js_put_def)

lemma dsize_js_assign: "dsize (js_assign m L) \<le> dsize m + dsize L"
proof (induction L arbitrary: m)
  case Nil
  then show ?case by (simp add: js_assign_def)
next
  case (Cons a L)
  obtain k v where a: "a = (k, v)" by (cases a)
  have "dsize (js_assign m (a # L)) = dsize (js_assign (js_put m k v) L)"
    by (simp add: a js_assign_def)
  also have "\<dots> \<le> dsize (js_put m k v) + dsize L" by (rule Cons.IH)
  also have "\<dots> \<le> dsize m + Suc (vsize v) + dsize L"
    using dsize_js_put [of m k v] by simp
  finally show ?case by (simp add: a)
qed

lemma flatten_reduce_dsize:
  "flatten_reduce ps ex sep path memo = Inr r \<Longrightarrow> dsize r \<le> dsize memo + dsize ps"
proof (induction ps ex sep path memo arbitrary: r rule: flatten_reduce.induct)
  case (1 ex sep path memo)
  then show ?case by simp
next
  case (2 key v rest ex sep path memo)
  have leaf: "dsize r \<le> dsize memo + dsize ((key, v) # rest)"
    if "flatten_reduce rest ex sep path (js_assign memo [(js_join sep (path @ [key]), v)]) = Inr r"
      and ih: "\<And>r. flatten_reduce rest ex sep path
                 (js_assign memo [(js_join sep (path @ [key]), v)]) = Inr r
             \<Longrightarrow> dsize r \<le> dsize (js_assign memo [(js_join sep (path @ [key]), v)]) + dsize rest"
  proof -
    have "dsize r \<le> dsize (js_assign memo [(js_join sep (path @ [key]), v)]) + dsize rest"
      using that by blast
    also have "dsize (js_assign memo [(js_join sep (path @ [key]), v)]) \<le> dsize memo + Suc (vsize v)"
      using dsize_js_assign [of memo "[(js_join sep (path @ [key]), v)]"] by simp
    finally show ?thesis by simp
  qed
  show ?case
  proof (cases v)
    case (VObject c sub)
    show ?thesis
    proof (cases "(c = ''Object'' \<or> (\<not> ex \<and> c = ''Array'')) \<and> map_of sub ''constructor'' = None")
      case True
      with "2.prems" VObject obtain s where s: "flatten_reduce sub ex sep (path @ [key]) [] = Inr s"
        and r: "flatten_reduce rest ex sep path (js_assign memo s) = Inr r"
        by (auto split: sum.splits)
      from "2.IH"(4) [OF VObject True s] have "dsize s \<le> dsize sub" by simp
      moreover from "2.IH"(5) [OF VObject True s r]
      have "dsize r \<le> dsize (js_assign memo s) + dsize rest" .
      moreover have "dsize (js_assign memo s) \<le> dsize memo + dsize s"
        by (rule dsize_js_assign)
      ultimately show ?thesis by (simp add: VObject dsize_def)
    next
      case False
      with "2.prems" VObject
      have "flatten_reduce rest ex sep path (js_assign memo [(js_join sep (path @ [key]), v)]) = Inr r"
        by auto
      then show ?thesis
        using "2.IH"(6) [OF VObject False] by (rule leaf)
    qed
  next
    case VUndefined
    with "2.prems" show ?thesis by simp
  next
    case VNull
    with "2.prems" show ?thesis by simp
  next
    case (VBool b)
    with "2.prems"
    have "flatten_reduce rest ex sep path (js_assign memo [(js_join sep (path @ [key]), v)]) = Inr r"
      by simp
    then show ?thesis using "2.IH"(1) [OF VBool] by (rule leaf)
  next
    case (VNum n)
    with "2.prems"
    have "flatten_reduce rest ex sep path (js_assign memo [(js_join sep (path @ [key]), v)]) = Inr r"
      by simp
    then show ?thesis using "2.IH"(2) [OF VNum] by (rule leaf)
  next
    case (VStr n)
    with "2.prems"
    have "flatten_reduce rest ex sep path (js_assign memo [(js_join sep (path @ [key]), v)]) = Inr r"
      by simp
    then show ?thesis using "2.IH"(3) [OF VStr] by (rule leaf)
  next
    case (VModel x1 x2 x3 x4 x5 x6 x7 x8)
    with "2.prems"
    have "flatten_reduce rest ex sep path (js_assign memo [(js_join sep (path @ [key]), v)]) = Inr r"
      by simp
    then show ?thesis using "2.IH"(7) [OF VModel] by (rule leaf)
  next
    case (VCollection x1 x2 x3 x4)
    with "2.prems"
    have "flatten_reduce rest ex sep path (js_assign memo [(js_join sep (path @ [key]), v)]) = Inr r"
      by simp
    then show ?thesis using "2.IH"(8) [OF VCollection] by (rule leaf)
  qed
qed

lemma flattenObject_dsize: "flattenObject ps ex sep path = Inr r \<Longrightarrow> dsize r \<le> dsize ps"
  using flatten_reduce_dsize [of ps ex sep path "[]" r] by (simp add: flattenObject_def)

lemma sum_zip_snd:
  "length ks = length xs \<Longrightarrow>
     sum_list (map (\<lambda>kv. Suc (vsize (snd kv))) (zip ks xs)) = sum_list (map (\<lambda>x. Suc (vsize x)) xs)"
  by (induction ks xs rule: list_induct2) auto

lemma dsize_own_props: "dsize (own_props v) \<le> vsize v"
  by (cases v) (auto simp: dsize_def sum_zip_snd)

lemma vsize_model_changes:
  "2 * dsize chs < Suc (Suc (2 * vsize (VModel cls oid fs chs r sn di au) + n))"
  by (simp add: dsize_def)

lemma vsize_model_changes2:
  "2 * dsize chs < Suc (2 * vsize (VModel cls oid fs chs r sn di au))"
  by (simp add: dsize_def)

lemma own_props_measure: "2 * dsize (own_props v) < Suc (2 * vsize v)"
  using dsize_own_props [of v] by simp

lemma flat_props_measure:
  "flattenObject (own_props v) ex sep path = Inr r \<Longrightarrow> 2 * dsize r < Suc (2 * vsize v)"
  using dsize_own_props [of v] flattenObject_dsize [of "own_props v" ex sep path r] by simp

termination check_fields
proof (relation "measure (\<lambda>x. case x of
      Inl (e, schema, chars, options, data, st) \<Rightarrow> 2 * dsize data
    | Inr (Inl (e, options, field, rules, rtype, value)) \<Rightarrow> 2 * vsize value + 1
    | Inr (Inr (e, field, mname, items, errs)) \<Rightarrow> 2 * dsize items)")
qed (auto simp: own_props_measure flat_props_measure simp del: vsize.simps
    simp add: vsize_model_changes vsize_model_changes2)


text \<open>
  \<open>Validator.check\<close>, on a data object given by its properties and the names of the
  members it inherits, and on a plain object; then \<open>Model.validate\<close>, which copies the
  change-set into a plain object and checks that.
\<close>

definition check_by :: "env \<Rightarrow> (string \<Rightarrow> bool) \<Rightarrow> schema \<Rightarrow> props \<Rightarrow> voptions
    \<Rightarrow> js_error + vresult" where
  "check_by e inh schema data options =
     (case check_fields e schema [] options data (init_state inh schema data options) of
        Inl err \<Rightarrow> Inl err
      | Inr st \<Rightarrow> Inr (finish_check st))"


definition model_validate :: "env \<Rightarrow> jsval \<Rightarrow> js_error + vresult" where
  "model_validate e v =
     (case v of
        VModel cls oid fs chs r sn di au \<Rightarrow>
          (case check_fields e (schema_of e cls) [] (validate_options v) chs
                  (init_state proto_member (schema_of e cls) chs (validate_options v)) of
             Inl err \<Rightarrow> Inl err
           | Inr st \<Rightarrow> Inr (finish_validate e v st))
      | _ \<Rightarrow> Inl (TypeError ''validate is not a function''))"


text \<open>
  For the proofs: the leaves of a nested object with the list of keys that leads to each,
  and \<open>expandObject\<close>'s loop on paths given as key lists.
\<close>

fun kleaves :: "props \<Rightarrow> (string list \<times> jsval) list" where
  "kleaves [] = []"
| "kleaves ((k, v) # rest) =
     (case v of
        VObject c ps \<Rightarrow>
          if c = ''Object'' \<and> map_of ps ''constructor'' = None
          then map (\<lambda>(p, l). (k # p, l)) (kleaves ps) else [([k], v)]
      | _ \<Rightarrow> [([k], v)]) @ kleaves rest"

fun kexpand :: "(string \<Rightarrow> bool) \<Rightarrow> (string list \<times> jsval) list \<Rightarrow> jsval \<Rightarrow> js_error + jsval" where
  "kexpand numeric [] t = Inr t"
| "kexpand numeric ((p, l) # rest) t =
     (case expand_reduce numeric l p t of
        Inl e \<Rightarrow> Inl e
      | Inr t' \<Rightarrow> kexpand numeric rest t')"

definition dotless :: "string \<Rightarrow> bool" where
  "dotless k = (CHR ''.'' \<notin> set k)"





text \<open>
  The value that \<open>check\<close> returns for a field it accepts: the value of the data, or, for
  a SubModel field whose class has a schema, the plain object of the sanitized data that
  the nested \<open>check\<close> returned (\<open>data[field] = result.data\<close> comes before
  \<open>cleaned[field] = data[field]\<close>). A \<open>null\<close> and a store transform are accepted before
  the type is looked at.
\<close>

definition sub_value :: "env \<Rightarrow> voptions \<Rightarrow> rules \<Rightarrow> string \<Rightarrow> jsval \<Rightarrow> jsval" where
  "sub_value e options rules rtype value =
     (if rtype \<noteq> ''SubModel'' then value
      else
        (case r_model rules of
           None \<Rightarrow> value
         | Some m \<Rightarrow>
             (case sub_schema_of e m of
                None \<Rightarrow> value
              | Some sub \<Rightarrow>
                  (case check_by e (inherited_by e value) sub (own_props value) options of
                     Inl err \<Rightarrow> value
                   | Inr r \<Rightarrow> if vr_valid r then VObject ''Object'' (vr_data r) else value))))"




fun regular_value :: "jsval \<Rightarrow> bool"
  and regular_props :: "props \<Rightarrow> bool"
  and regular_items :: "jsval list \<Rightarrow> bool" where
  "regular_value (VObject c ps) = regular_props ps"
| "regular_value (VModel cls oid fs chs r sn di au) = (regular_props fs \<and> regular_props chs)"
| "regular_value (VCollection cls p xs ds) = (regular_items xs \<and> regular_items ds)"
| "regular_value _ = True"
| "regular_props [] = True"
| "regular_props ((k, v) # ps) =
     (\<not> proto_member k \<and> k \<notin> fst ` set ps \<and> regular_value v \<and> regular_props ps)"
| "regular_items [] = True"
| "regular_items (x # xs) = (regular_value x \<and> regular_items xs)"









section \<open>Example entity types\<close>

definition class_Post :: model_class where
  "class_Post = \<lparr>cls_name = ''Post'', cls_parent = ''Model'', cls_key = 1, cls_path = ''posts''\<rparr>"

definition class_Post2 :: model_class where
  "class_Post2 = \<lparr>cls_name = ''Post'', cls_parent = ''Model'', cls_key = 2, cls_path = ''blog_posts''\<rparr>"



definition class_Comment :: model_class where
  "class_Comment = \<lparr>cls_name = ''Comment'', cls_parent = ''Model'', cls_key = 4, cls_path = ''comments''\<rparr>"

definition query_Post :: query where
  "query_Post = \<lparr>q_model = class_Post, q_getOne = False, q_limit = None, q_after = None,
     q_before = None, q_auth = VNull, q_path = ''posts''\<rparr>"








section \<open>Properties\<close>

subsection \<open>Pagination cursors\<close>

text \<open>
  C7, as stated, fails: the check compares the name of the instance's class with the name
  of the query's entity type, so a fetched instance of another entity type that has the
  same name is accepted.
\<close>

theorem cursor_same_name_counterexample:
  "m_class (VModel class_Post2 7 [] [] None (Some (DocRef ''blog_posts'' ''b1'')) None VNull)
     \<noteq> q_model query_Post
   \<and> q_after_m query_Post
        (VModel class_Post2 7 [] [] None (Some (DocRef ''blog_posts'' ''b1'')) None VNull)
     = Inr (query_Post\<lparr>q_after :=
         Some (VModel class_Post2 7 [] [] None (Some (DocRef ''blog_posts'' ''b1'')) None VNull,
               False)\<rparr>)"
  by (simp add: q_after_m_def checkCursorValue_def class_Post_def class_Post2_def query_Post_def)

text \<open>
  C7, amended: each of the four cursor methods returns an error, without touching the
  store, for an entity instance that carries no store snapshot or whose class name differs
  from the name of the query's entity type; a literal scalar or null is accepted and stored
  with the method's inclusive flag.
\<close>

theorem cursor_value_checked:
  "(is_entity v \<and> (m_docSnap v = None \<or> constructorName v \<noteq> cls_name (q_model q)) \<longrightarrow>
      isl (q_after_m q v) \<and> isl (q_startAt q v) \<and> isl (q_endAt q v) \<and> isl (q_endBefore q v))
   \<and> (is_scalar s \<or> s = VNull \<longrightarrow>
      q_after_m q s = Inr (q\<lparr>q_after := Some (s, False)\<rparr>)
      \<and> q_startAt q s = Inr (q\<lparr>q_after := Some (s, True)\<rparr>)
      \<and> q_endAt q s = Inr (q\<lparr>q_before := Some (s, True)\<rparr>)
      \<and> q_endBefore q s = Inr (q\<lparr>q_before := Some (s, False)\<rparr>))"
proof -
  have rej: "isl (q_after_m q v) \<and> isl (q_startAt q v) \<and> isl (q_endAt q v)
      \<and> isl (q_endBefore q v)"
    if "is_entity v \<and> (m_docSnap v = None \<or> constructorName v \<noteq> cls_name (q_model q))"
    using that
    by (cases v)
      (auto simp: q_after_m_def q_startAt_def q_endAt_def q_endBefore_def checkCursorValue_def)
  have acc: "q_after_m q s = Inr (q\<lparr>q_after := Some (s, False)\<rparr>)
      \<and> q_startAt q s = Inr (q\<lparr>q_after := Some (s, True)\<rparr>)
      \<and> q_endAt q s = Inr (q\<lparr>q_before := Some (s, True)\<rparr>)
      \<and> q_endBefore q s = Inr (q\<lparr>q_before := Some (s, False)\<rparr>)"
    if "is_scalar s \<or> s = VNull"
  proof -
    from that have ok: "checkCursorValue q s = Inr ()"
      by (cases s) (auto simp: checkCursorValue_def)
    show ?thesis
      by (simp add: q_after_m_def q_startAt_def q_endAt_def q_endBefore_def ok)
  qed
  from rej acc show ?thesis by blast
qed

theorem cursor_value_checked_witness:
  "is_entity (VModel class_Post 1 [] [] None None None VNull)
   \<and> m_docSnap (VModel class_Post 1 [] [] None None None VNull) = None
   \<and> isl (q_after_m query_Post (VModel class_Post 1 [] [] None None None VNull))
   \<and> isl (q_endBefore query_Post (VModel class_Post 1 [] [] None None None VNull))
   \<and> is_scalar (VNum 5)
   \<and> q_startAt query_Post (VNum 5) = Inr (query_Post\<lparr>q_after := Some (VNum 5, True)\<rparr>)"
  using cursor_value_checked [of "VModel class_Post 1 [] [] None None None VNull" query_Post "VNum 5"]
  by simp

subsection \<open>Bulk update\<close>

text \<open>
  C6: the update diff \<open>{title: 'x'}\<close> touches neither a Reference nor a unique-constrained
  field and no hook is registered, yet \<open>Query.update\<close> materializes entity instances,
  because the schema has a unique-constrained field elsewhere.
\<close>

theorem update_unique_outside_diff:
  "update_plan_of (Some (CbBool False)) True []
     [(''title'', rule_of_type ''String''),
      (''username'', Rules (Some ''String'') OfNone None None False None
          (Some (Bare (CBool True))) None None None None None None None None)]
     [(''title'', VStr ''x'')] = Materialize
   \<and> hooks_enabled (Some (CbBool False)) [] = False
   \<and> affected_ref_or_unique
       [(''title'', rule_of_type ''String''),
        (''username'', Rules (Some ''String'') OfNone None None False None
            (Some (Bare (CBool True))) None None None None None None None None)]
       [(''title'', VStr ''x'')] = False"
  by (simp add: update_plan_of_def update_useModel_def rule_of_type_def js_get_def
      hooks_enabled_def affected_ref_or_unique_def)

subsection \<open>The ordered entity container\<close>





subsection \<open>Flattening and expanding\<close>

lemma js_assign_Nil [simp]: "js_assign m [] = m"
  by (simp add: js_assign_def)

lemma js_assign_assign: "js_assign (js_assign m a) b = js_assign m (a @ b)"
  by (simp add: js_assign_def)

lemma js_assign_Cons: "js_assign m ((k, v) # b) = js_assign (js_put m k v) b"
  by (simp add: js_assign_def)

lemma map_of_fresh: "k \<notin> fst ` set m \<Longrightarrow> map_of (m @ [(k, v)]) k = Some v"
  by (induction m) auto

lemma map_of_absent: "k \<notin> fst ` set m \<Longrightarrow> map_of m k = None"
  by (simp add: map_of_eq_None_iff)

lemma proto_member_proto: "proto_member ''__proto__''"
  by (simp add: proto_member_def object_prototype_names_def)

lemma proto_member_constructor: "proto_member ''constructor''"
  by (simp add: proto_member_def object_prototype_names_def)

lemma proto_member_dotless: "proto_member k \<Longrightarrow> CHR ''.'' \<notin> set k"
  by (auto simp: proto_member_def object_prototype_names_def)

lemma js_set_fresh: "k \<notin> fst ` set m \<Longrightarrow> js_set m k v = m @ [(k, v)]"
  by (induction m) auto

lemma js_set_last: "k \<notin> fst ` set m \<Longrightarrow> js_set (m @ [(k, v)]) k v' = m @ [(k, v')]"
  by (induction m) auto

lemma js_get_last: "k \<notin> fst ` set m \<Longrightarrow> js_get (m @ [(k, v)]) k = v"
  by (induction m) (auto simp: js_get_def)

lemma js_get_fresh: "k \<notin> fst ` set m \<Longrightarrow> js_get m k = VUndefined"
  by (induction m) (auto simp: js_get_def)

lemma js_assign_fresh:
  "distinct (map fst L) \<Longrightarrow> fst ` set L \<inter> fst ` set m = {} \<Longrightarrow>
     \<forall>k\<in>fst ` set L. \<not> proto_member k \<Longrightarrow> js_assign m L = m @ L"
proof (induction L arbitrary: m)
  case Nil
  then show ?case by simp
next
  case (Cons a L)
  obtain k v where a: "a = (k, v)" by (cases a)
  from Cons.prems have fresh: "k \<notin> fst ` set m" and d: "distinct (map fst L)"
    and kL: "k \<notin> fst ` set L" and disj: "fst ` set L \<inter> fst ` set m = {}"
    and np: "\<not> proto_member k" and npL: "\<forall>k\<in>fst ` set L. \<not> proto_member k"
    by (auto simp: a)
  from np have put: "js_put m k v = js_set m k v"
    using proto_member_proto by (auto simp: js_put_def)
  have "fst ` set L \<inter> fst ` set (m @ [(k, v)]) = {}"
    using disj kL by auto
  with Cons.IH [OF d _ npL, of "m @ [(k, v)]"] show ?case
    by (simp add: a js_assign_Cons put js_set_fresh [OF fresh])
qed


lemma split_go_dotless:
  "dotless k \<Longrightarrow> split_go ''.'' (k @ s) cur = split_go ''.'' s (cur @ k)"
  by (induction k arbitrary: cur) (auto simp: dotless_def)

lemma split_go_dot: "split_go ''.'' (CHR ''.'' # s) cur = cur # split_go ''.'' s []"
  by simp

lemma split_go_join:
  "\<forall>k\<in>set (k0 # ks). dotless k \<Longrightarrow>
     split_go ''.'' (js_join ''.'' (k0 # ks)) cur = (cur @ k0) # ks"
proof (induction ks arbitrary: k0 cur)
  case Nil
  then show ?case
    using split_go_dotless [of k0 "[]" cur] by simp
next
  case (Cons k1 ks)
  have "split_go ''.'' (js_join ''.'' (k0 # k1 # ks)) cur
      = split_go ''.'' (CHR ''.'' # js_join ''.'' (k1 # ks)) (cur @ k0)"
    using split_go_dotless [of k0 "CHR ''.'' # js_join ''.'' (k1 # ks)" cur] Cons.prems
    by simp
  also have "\<dots> = (cur @ k0) # split_go ''.'' (js_join ''.'' (k1 # ks)) []"
    by (simp only: split_go_dot)
  also have "\<dots> = (cur @ k0) # k1 # ks"
    using Cons.IH [of k1 "[]"] Cons.prems by simp
  finally show ?case .
qed

lemma split_join:
  "p \<noteq> [] \<Longrightarrow> \<forall>k\<in>set p. dotless k \<Longrightarrow> js_split ''.'' (js_join ''.'' p) = p"
  by (cases p) (simp_all add: js_split_def split_go_join del: js_join.simps split_go.simps)

lemma join_inj:
  "p \<noteq> [] \<Longrightarrow> q \<noteq> [] \<Longrightarrow> \<forall>k\<in>set p. dotless k \<Longrightarrow> \<forall>k\<in>set q. dotless k \<Longrightarrow>
     js_join ''.'' p = js_join ''.'' q \<Longrightarrow> p = q"
  by (metis split_join)

lemma keys_ok_proto: "keys_ok numeric ps \<Longrightarrow> k \<in> fst ` set ps \<Longrightarrow> \<not> proto_member k"
  by (induction numeric ps rule: keys_ok.induct) auto

lemma keys_ok_no_constructor: "keys_ok numeric ps \<Longrightarrow> map_of ps ''constructor'' = None"
  using keys_ok_proto [of numeric ps "''constructor''"] proto_member_constructor
  by (auto simp: map_of_eq_None_iff)

lemma keys_ok_sub:
  "keys_ok numeric ((k, VObject ''Object'' sub) # rest) \<Longrightarrow>
     keys_ok numeric sub \<and> map_of sub ''constructor'' = None"
  using keys_ok_no_constructor [of numeric sub] by simp

lemma kleaves_paths:
  "keys_ok numeric ps \<Longrightarrow> (p, l) \<in> set (kleaves ps) \<Longrightarrow>
     p \<noteq> [] \<and> hd p \<in> fst ` set ps
     \<and> (\<forall>k\<in>set p. dotless k \<and> \<not> numeric k \<and> \<not> proto_member k)"
proof (induction numeric ps arbitrary: p l rule: keys_ok.induct)
  case (1 numeric)
  then show ?case by simp
next
  case (2 numeric k v rest)
  from "2.prems"(2) consider
    (here) "(p, l) \<in> set (case v of
        VObject c ps \<Rightarrow>
          if c = ''Object'' \<and> map_of ps ''constructor'' = None
          then map (\<lambda>(p, l). (k # p, l)) (kleaves ps) else [([k], v)]
      | _ \<Rightarrow> [([k], v)])"
    | (there) "(p, l) \<in> set (kleaves rest)" by auto
  then show ?case
  proof cases
    case there
    with "2.IH"(2) [of p l] "2.prems"(1) show ?thesis by auto
  next
    case here
    show ?thesis
    proof (cases "\<exists>sub. v = VObject ''Object'' sub")
      case True
      then obtain sub where v: "v = VObject ''Object'' sub" by blast
      from "2.prems"(1) v have sub: "keys_ok numeric sub" "map_of sub ''constructor'' = None"
        using keys_ok_sub by blast+
      with here v obtain p' where p: "p = k # p'" and mem: "(p', l) \<in> set (kleaves sub)"
        by auto
      from "2.IH"(1) [OF v refl sub(1) mem] "2.prems"(1) show ?thesis
        by (simp add: p dotless_def)
    next
      case False
      with here have "p = [k]" by (auto split: jsval.splits if_splits)
      with "2.prems"(1) show ?thesis by (simp add: dotless_def)
    qed
  qed
qed

lemma kleaves_distinct:
  "keys_ok numeric ps \<Longrightarrow> distinct (map fst (kleaves ps))"
proof (induction numeric ps rule: keys_ok.induct)
  case (1 numeric)
  then show ?case by simp
next
  case (2 numeric k v rest)
  let ?here = "case v of
        VObject c ps \<Rightarrow>
          if c = ''Object'' \<and> map_of ps ''constructor'' = None
          then map (\<lambda>(p, l). (k # p, l)) (kleaves ps) else [([k], v)]
      | _ \<Rightarrow> [([k], v)]"
  have rest: "distinct (map fst (kleaves rest))"
    using "2.IH"(2) "2.prems" by simp
  have hd_here: "hd p = k" if "p \<in> fst ` set ?here" for p
    using that by (auto split: jsval.splits if_splits)
  have hd_rest: "hd p \<noteq> k" if "p \<in> fst ` set (kleaves rest)" for p
  proof -
    from that obtain l where "(p, l) \<in> set (kleaves rest)" by auto
    with kleaves_paths [of numeric rest p l] "2.prems" have "hd p \<in> fst ` set rest" by simp
    with "2.prems" show ?thesis by auto
  qed
  have here: "distinct (map fst ?here)"
  proof (cases "\<exists>sub. v = VObject ''Object'' sub")
    case True
    then obtain sub where v: "v = VObject ''Object'' sub" by blast
    from "2.prems" v have sub: "keys_ok numeric sub" "map_of sub ''constructor'' = None"
      using keys_ok_sub by blast+
    from "2.IH"(1) [OF v refl sub(1)] have "distinct (map fst (kleaves sub))" .
    then show ?thesis
      by (fastforce simp: v sub(2) distinct_map inj_on_def)
  next
    case False
    then show ?thesis by (auto split: jsval.splits)
  qed
  have "fst ` set ?here \<inter> fst ` set (kleaves rest) = {}"
    using hd_here hd_rest by blast
  with here rest show ?case by simp
qed

lemma joined_distinct:
  assumes "keys_ok numeric ps" "\<forall>k\<in>set path. dotless k"
  shows "distinct (map fst (map (\<lambda>(p, l). (js_join ''.'' (path @ p), l)) (kleaves ps)))"
proof -
  have eq: "map fst (map (\<lambda>(p, l). (js_join ''.'' (path @ p), l)) (kleaves ps))
      = map (\<lambda>p. js_join ''.'' (path @ p)) (map fst (kleaves ps))"
    by (simp add: case_prod_unfold comp_def)
  have "inj_on (\<lambda>p. js_join ''.'' (path @ p)) (set (map fst (kleaves ps)))"
  proof (rule inj_onI)
    fix p q
    assume p: "p \<in> set (map fst (kleaves ps))" and q: "q \<in> set (map fst (kleaves ps))"
      and e: "js_join ''.'' (path @ p) = js_join ''.'' (path @ q)"
    from p obtain l where "(p, l) \<in> set (kleaves ps)" by auto
    from kleaves_paths [OF assms(1) this] have p1: "p \<noteq> []" "\<forall>k\<in>set p. dotless k" by auto
    from q obtain l' where "(q, l') \<in> set (kleaves ps)" by auto
    from kleaves_paths [OF assms(1) this] have q1: "q \<noteq> []" "\<forall>k\<in>set q. dotless k" by auto
    have "path @ p = path @ q"
      by (rule join_inj [OF _ _ _ _ e]) (use p1 q1 assms(2) in auto)
    then show "p = q" by simp
  qed
  with kleaves_distinct [OF assms(1)]
  have "distinct (map (\<lambda>p. js_join ''.'' (path @ p)) (map fst (kleaves ps)))"
    by (simp only: distinct_map simp_thms)
  then show ?thesis
    by (simp only: eq)
qed

lemma join_has_dot: "CHR ''.'' \<in> set (js_join ''.'' (a # b # q))"
  by simp

lemma join_not_proto:
  assumes "q \<noteq> []" "\<forall>k\<in>set q. \<not> proto_member k"
  shows "\<not> proto_member (js_join ''.'' q)"
proof (cases q)
  case Nil
  with assms show ?thesis by simp
next
  case (Cons a r)
  show ?thesis
  proof (cases r)
    case Nil
    with Cons assms show ?thesis by simp
  next
    case (Cons b t)
    with \<open>q = a # r\<close> have "CHR ''.'' \<in> set (js_join ''.'' q)"
      using join_has_dot [of a b t] by simp
    then show ?thesis using proto_member_dotless by blast
  qed
qed

lemma joined_not_proto:
  assumes "keys_ok numeric ps" "\<forall>k\<in>set path. \<not> proto_member k"
  shows "\<forall>k\<in>fst ` set (map (\<lambda>(p, l). (js_join ''.'' (path @ p), l)) (kleaves ps)).
           \<not> proto_member k"
proof -
  have "\<not> proto_member (js_join ''.'' (path @ p))" if "(p, l) \<in> set (kleaves ps)" for p l
  proof (rule join_not_proto)
    from kleaves_paths [OF assms(1) that] show "path @ p \<noteq> []" by simp
    from kleaves_paths [OF assms(1) that] assms(2)
    show "\<forall>k\<in>set (path @ p). \<not> proto_member k" by auto
  qed
  then show ?thesis by auto
qed

lemma flatten_reduce_kleaves:
  "keys_ok numeric ps \<Longrightarrow> nested_ok ps \<Longrightarrow> ex \<Longrightarrow> sep = ''.'' \<Longrightarrow>
     \<forall>k\<in>set path. dotless k \<and> \<not> proto_member k \<Longrightarrow>
     flatten_reduce ps ex sep path memo
       = Inr (js_assign memo (map (\<lambda>(p, l). (js_join sep (path @ p), l)) (kleaves ps)))"
proof (induction ps ex sep path memo rule: flatten_reduce.induct)
  case (1 ex sep path memo)
  then show ?case by simp
next
  case (2 key v rest ex sep path memo)
  from "2.prems" have ex: ex and sep: "sep = ''.''"
    and path: "\<forall>k\<in>set path. dotless k \<and> \<not> proto_member k"
    and rest: "keys_ok numeric rest" "nested_ok rest" and key: "dotless key" "\<not> proto_member key"
    by (auto simp: dotless_def)
  show ?case
  proof (cases v)
    case (VObject c sub)
    show ?thesis
    proof (cases "c = ''Object''")
      case True
      with "2.prems" VObject have sub: "keys_ok numeric sub" "nested_ok sub"
        and nc: "map_of sub ''constructor'' = None"
        using keys_ok_sub [of numeric key sub rest] by auto
      have cond: "(c = ''Object'' \<or> \<not> ex \<and> c = ''Array'') \<and> map_of sub ''constructor'' = None"
        using True nc by simp
      have path': "\<forall>k\<in>set (path @ [key]). dotless k \<and> \<not> proto_member k"
        using path key by simp
      then have path'd: "\<forall>k\<in>set (path @ [key]). dotless k"
        and path'p: "\<forall>k\<in>set (path @ [key]). \<not> proto_member k" by blast+
      let ?L = "map (\<lambda>(p, l). (js_join sep (path @ key # p), l)) (kleaves sub)"
      have a: "flatten_reduce sub ex sep (path @ [key]) [] = Inr (js_assign [] ?L)"
        using "2.IH"(4) [OF VObject cond sub ex sep path'] by simp
      have "distinct (map fst ?L)"
        using joined_distinct [OF sub(1) path'd] sep by simp
      moreover have "\<forall>k\<in>fst ` set ?L. \<not> proto_member k"
        using joined_not_proto [OF sub(1) path'p] sep by simp
      ultimately have L: "js_assign [] ?L = ?L"
        using js_assign_fresh [of ?L "[]"] by simp
      have b: "flatten_reduce rest ex sep path (js_assign memo ?L)
         = Inr (js_assign (js_assign memo ?L)
              (map (\<lambda>(p, l). (js_join sep (path @ p), l)) (kleaves rest)))"
        using "2.IH"(5) [OF VObject cond _ rest ex sep path] a L by simp
      have m: "map (\<lambda>(p, l). (js_join sep (path @ p), l))
            (map (\<lambda>(p, l). (key # p, l)) (kleaves sub)) = ?L"
        by (simp add: case_prod_unfold comp_def)
      have "flatten_reduce ((key, v) # rest) ex sep path memo
          = flatten_reduce rest ex sep path (js_assign memo ?L)"
        by (simp add: VObject True nc a L)
      also note b
      also have "js_assign (js_assign memo ?L)
              (map (\<lambda>(p, l). (js_join sep (path @ p), l)) (kleaves rest))
          = js_assign memo (map (\<lambda>(p, l). (js_join sep (path @ p), l))
              (kleaves ((key, v) # rest)))"
        by (simp add: js_assign_assign VObject True nc m del: map_map)
      finally show ?thesis .
    next
      case False
      then have ncond: "\<not> ((c = ''Object'' \<or> \<not> ex \<and> c = ''Array'')
          \<and> map_of sub ''constructor'' = None)"
        using ex by simp
      show ?thesis
        using "2.IH"(6) [OF VObject ncond rest ex sep path] False ex
        by (simp add: VObject js_assign_def)
    qed
  next
    case VUndefined
    with "2.prems" show ?thesis by simp
  next
    case VNull
    with "2.prems" show ?thesis by simp
  next
    case (VBool b)
    from "2.IH"(1) [OF VBool rest ex sep path] show ?thesis by (simp add: VBool js_assign_def)
  next
    case (VNum n)
    from "2.IH"(2) [OF VNum rest ex sep path] show ?thesis by (simp add: VNum js_assign_def)
  next
    case (VStr n)
    from "2.IH"(3) [OF VStr rest ex sep path] show ?thesis by (simp add: VStr js_assign_def)
  next
    case (VModel x1 x2 x3 x4 x5 x6 x7 x8)
    from "2.IH"(7) [OF VModel rest ex sep path] show ?thesis by (simp add: VModel js_assign_def)
  next
    case (VCollection x1 x2 x3 x4)
    from "2.IH"(8) [OF VCollection rest ex sep path] show ?thesis
      by (simp add: VCollection js_assign_def)
  qed
qed


lemma expand_reduce_own:
  "js_lookup memo prop = Own cur \<Longrightarrow> truthy cur \<Longrightarrow>
     expand_reduce numeric leaf (prop # ks) memo
       = (case expand_reduce numeric leaf ks cur of
            Inl e \<Rightarrow> Inl e
          | Inr cur' \<Rightarrow> js_write memo prop cur')"
  by (simp add: Let_def)

lemma expand_reduce_inherited:
  "js_lookup memo prop = Inherited \<Longrightarrow> expand_reduce numeric leaf (prop # ks) memo = Inr memo"
  by (simp add: Let_def)

lemma expand_reduce_new:
  "js_lookup memo prop = Absent \<or> (\<exists>cur. js_lookup memo prop = Own cur \<and> \<not> truthy cur) \<Longrightarrow>
     expand_reduce numeric leaf (prop # ks) memo
       = (case js_write memo prop (expand_init numeric leaf ks) of
            Inl e \<Rightarrow> Inl e
          | Inr memo' \<Rightarrow>
              (case expand_reduce numeric leaf ks (expand_init numeric leaf ks) of
                 Inl e \<Rightarrow> Inl e
               | Inr init' \<Rightarrow> js_write memo' prop init'))"
  by (auto simp: Let_def)

lemma expand_reduce_cases:
  obtains (own) cur where "js_lookup memo prop = Own cur" "truthy cur"
  | (inherited) "js_lookup memo prop = Inherited"
  | (new) "js_lookup memo prop = Absent \<or> (\<exists>cur. js_lookup memo prop = Own cur \<and> \<not> truthy cur)"
  by (cases "js_lookup memo prop") auto

lemma expand_reduce_object:
  "expand_reduce numeric l p (VObject c ps) = Inr t \<Longrightarrow> \<exists>ps'. t = VObject c ps'"
proof (cases p)
  case Nil
  assume "expand_reduce numeric l p (VObject c ps) = Inr t"
  with Nil have "t = VObject c ps" by simp
  then show ?thesis by blast
next
  case (Cons k ks)
  assume r: "expand_reduce numeric l p (VObject c ps) = Inr t"
  show ?thesis
  proof (cases rule: expand_reduce_cases [of "VObject c ps" k])
    case (own cur)
    from r show ?thesis
      unfolding Cons expand_reduce_own [OF own]
      by (auto split: sum.splits)
  next
    case inherited
    from r show ?thesis
      unfolding Cons expand_reduce_inherited [OF inherited] by auto
  next
    case new
    from r show ?thesis
      unfolding Cons expand_reduce_new [OF new]
      by (auto split: sum.splits)
  qed
qed

lemma kexpand_object:
  "kexpand numeric L (VObject c ps) = Inr t \<Longrightarrow> \<exists>ps'. t = VObject c ps'"
proof (induction L arbitrary: ps)
  case Nil
  then show ?case by auto
next
  case (Cons a L)
  obtain p l where a: "a = (p, l)" by (cases a)
  from Cons.prems obtain t' where t': "expand_reduce numeric l p (VObject c ps) = Inr t'"
    and k: "kexpand numeric L t' = Inr t"
    by (auto simp: a split: sum.splits)
  from expand_reduce_object [OF t'] obtain ps' where "t' = VObject c ps'" by blast
  with Cons.IH k show ?case by blast
qed

lemma kexpand_append:
  "kexpand numeric (A @ B) t
     = (case kexpand numeric A t of Inl e \<Rightarrow> Inl e | Inr t' \<Rightarrow> kexpand numeric B t')"
  by (induction A arbitrary: t) (auto split: sum.splits)

lemma lookup_last:
  "k \<notin> fst ` set acc \<Longrightarrow> js_lookup (VObject c (acc @ [(k, v)])) k = Own v"
  by (simp add: map_of_fresh del: map_of_append)

lemma lookup_absent:
  "k \<notin> fst ` set acc \<Longrightarrow> \<not> proto_member k \<Longrightarrow> js_lookup (VObject c acc) k = Absent"
  by (simp add: map_of_absent)

lemma expand_reduce_below:
  assumes "k \<notin> fst ` set acc"
  shows "expand_reduce numeric l (k # p) (VObject c (acc @ [(k, VObject c' ps')]))
     = (case expand_reduce numeric l p (VObject c' ps') of
          Inl e \<Rightarrow> Inl e
        | Inr r \<Rightarrow> Inr (VObject c (acc @ [(k, r)])))"
  using assms
  by (simp add: expand_reduce_own [OF lookup_last [OF assms]] js_set_last
      del: expand_reduce.simps split: sum.splits)

lemma expand_reduce_create:
  assumes "k \<notin> fst ` set acc" "\<not> proto_member k" "p \<noteq> []" "\<not> numeric (hd p)"
  shows "expand_reduce numeric l (k # p) (VObject c acc)
     = expand_reduce numeric l (k # p) (VObject c (acc @ [(k, VObject ''Object'' [])]))"
proof -
  have i: "expand_init numeric l p = VObject ''Object'' []"
    using assms(3,4) by (simp add: expand_init_def)
  have new: "js_lookup (VObject c acc) k = Absent
      \<or> (\<exists>cur. js_lookup (VObject c acc) k = Own cur \<and> \<not> truthy cur)"
    using lookup_absent [OF assms(1,2)] by simp
  have "expand_reduce numeric l (k # p) (VObject c acc)
      = (case expand_reduce numeric l p (VObject ''Object'' []) of
           Inl e \<Rightarrow> Inl e
         | Inr r \<Rightarrow> Inr (VObject c (acc @ [(k, r)])))"
    unfolding expand_reduce_new [OF new, of numeric l p] using assms(1)
    by (simp add: i js_set_fresh js_set_last split: sum.splits del: expand_reduce.simps)
  also have "\<dots> = expand_reduce numeric l (k # p) (VObject c (acc @ [(k, VObject ''Object'' [])]))"
    by (simp only: expand_reduce_below [OF assms(1)])
  finally show ?thesis .
qed

lemma expand_reduce_leaf:
  assumes "k \<notin> fst ` set acc" "\<not> proto_member k"
  shows "expand_reduce numeric v [k] (VObject c acc) = Inr (VObject c (acc @ [(k, v)]))"
proof -
  have new: "js_lookup (VObject c acc) k = Absent
      \<or> (\<exists>cur. js_lookup (VObject c acc) k = Own cur \<and> \<not> truthy cur)"
    using lookup_absent [OF assms(1,2)] by simp
  then show ?thesis
    unfolding expand_reduce_new [OF new, of numeric v "[]"] using assms(1)
    by (simp add: expand_init_def js_set_fresh js_set_last)
qed

lemma kexpand_below:
  assumes "k \<notin> fst ` set acc"
  shows "kexpand numeric (map (\<lambda>(p, l). (k # p, l)) L) (VObject c (acc @ [(k, VObject c' ps')]))
     = (case kexpand numeric L (VObject c' ps') of
          Inl e \<Rightarrow> Inl e
        | Inr r \<Rightarrow> Inr (VObject c (acc @ [(k, r)])))"
proof (induction L arbitrary: ps')
  case Nil
  then show ?case by simp
next
  case (Cons a L)
  obtain p l where a: "a = (p, l)" by (cases a)
  show ?case
  proof (cases "expand_reduce numeric l p (VObject c' ps')")
    case (Inl e)
    then show ?thesis
      by (simp add: a expand_reduce_below [OF assms] del: expand_reduce.simps)
  next
    case (Inr r)
    from expand_reduce_object [OF Inr] obtain ps'' where r: "r = VObject c' ps''" by blast
    show ?thesis
      using Cons.IH [of ps'']
      by (simp add: a expand_reduce_below [OF assms] Inr r del: expand_reduce.simps)
  qed
qed

lemma kleaves_nonempty: "nested_ok ps \<Longrightarrow> ps \<noteq> [] \<Longrightarrow> kleaves ps \<noteq> []"
proof (induction ps rule: nested_ok.induct)
  case 1
  then show ?case by simp
next
  case (2 k v rest)
  then show ?case by (cases v) (auto split: if_splits)
qed

lemma kexpand_kleaves:
  "keys_ok numeric ps \<Longrightarrow> nested_ok ps \<Longrightarrow> fst ` set ps \<inter> fst ` set acc = {} \<Longrightarrow>
     kexpand numeric (kleaves ps) (VObject c acc) = Inr (VObject c (acc @ ps))"
proof (induction numeric ps arbitrary: acc c rule: keys_ok.induct)
  case (1 numeric)
  then show ?case by simp
next
  case (2 numeric k v rest)
  from "2.prems" have fresh: "k \<notin> fst ` set acc" and krest: "k \<notin> fst ` set rest"
    and np: "\<not> proto_member k"
    and rest: "keys_ok numeric rest" "nested_ok rest"
    and disj: "fst ` set rest \<inter> fst ` set (acc @ [(k, v)]) = {}"
    by auto
  have tail: "kexpand numeric (kleaves rest) (VObject c (acc @ [(k, v)]))
      = Inr (VObject c (acc @ (k, v) # rest))"
    using "2.IH"(2) [OF rest disj, of c] by simp
  show ?case
  proof (cases "\<exists>sub. v = VObject ''Object'' sub")
    case True
    then obtain sub where v: "v = VObject ''Object'' sub" by blast
    from "2.prems" v have sub: "keys_ok numeric sub" "nested_ok sub" "sub \<noteq> []"
      and nc: "map_of sub ''constructor'' = None"
      using keys_ok_sub [of numeric k sub rest] by auto
    from kleaves_nonempty [OF sub(2,3)] obtain p1 l1 L where L: "kleaves sub = (p1, l1) # L"
      by (cases "kleaves sub") auto
    from kleaves_paths [OF sub(1), of p1 l1] L have p1: "p1 \<noteq> []" "\<not> numeric (hd p1)"
      by (auto simp: hd_in_set)
    have inner: "kexpand numeric (kleaves sub) (VObject ''Object'' []) = Inr (VObject ''Object'' sub)"
      using "2.IH"(1) [OF v refl sub(1,2), of "[]" "''Object''"] by simp
    have "kexpand numeric (map (\<lambda>(p, l). (k # p, l)) (kleaves sub)) (VObject c acc)
        = kexpand numeric (map (\<lambda>(p, l). (k # p, l)) (kleaves sub))
            (VObject c (acc @ [(k, VObject ''Object'' [])]))"
      using expand_reduce_create [of k acc p1 numeric l1 c, OF fresh np p1]
      by (simp add: L del: expand_reduce.simps)
    also have "\<dots> = Inr (VObject c (acc @ [(k, v)]))"
      by (simp add: kexpand_below [OF fresh] inner v)
    finally have first: "kexpand numeric (map (\<lambda>(p, l). (k # p, l)) (kleaves sub)) (VObject c acc)
        = Inr (VObject c (acc @ [(k, v)]))" .
    show ?thesis
      by (simp add: v nc kexpand_append first tail [unfolded v])
  next
    case False
    then have kl: "kleaves ((k, v) # rest) = ([k], v) # kleaves rest"
      by (auto split: jsval.splits)
    show ?thesis
      unfolding kl
      by (simp add: expand_reduce_leaf [OF fresh np] tail del: expand_reduce.simps)
  qed
qed

lemma expand_loop_kexpand:
  "\<forall>(p, l)\<in>set L. p \<noteq> [] \<and> (\<forall>k\<in>set p. dotless k) \<Longrightarrow>
     expand_loop numeric ''.'' (map (\<lambda>(p, l). (js_join ''.'' p, l)) L) t = kexpand numeric L t"
proof (induction L arbitrary: t)
  case Nil
  then show ?case by simp
next
  case (Cons a L)
  obtain p l where a: "a = (p, l)" by (cases a)
  from Cons.prems have "js_split ''.'' (js_join ''.'' p) = p"
    by (auto simp: a intro: split_join)
  with Cons show ?case
    by (auto simp: a split: sum.splits)
qed

lemma flatten_expand_kleaves:
  assumes "keys_ok numeric x" "nested_ok x"
  shows "flattenObject x True ''.'' [] = Inr (map (\<lambda>(p, l). (js_join ''.'' p, l)) (kleaves x))
    \<and> expandObject numeric (map (\<lambda>(p, l). (js_join ''.'' p, l)) (kleaves x)) ''.'' = Inr x"
proof -
  have d: "distinct (map fst (map (\<lambda>(p, l). (js_join ''.'' ([] @ p), l)) (kleaves x)))"
    by (rule joined_distinct [OF assms(1)]) simp
  have "flattenObject x True ''.'' []
      = Inr (js_assign [] (map (\<lambda>(p, l). (js_join ''.'' ([] @ p), l)) (kleaves x)))"
    unfolding flattenObject_def
    by (rule flatten_reduce_kleaves [OF assms]) simp_all
  also have "js_assign [] (map (\<lambda>(p, l). (js_join ''.'' ([] @ p), l)) (kleaves x))
      = map (\<lambda>(p, l). (js_join ''.'' ([] @ p), l)) (kleaves x)"
    using js_assign_fresh [OF d, of "[]"] joined_not_proto [OF assms(1), of "[]"] by simp
  finally have f: "flattenObject x True ''.'' []
      = Inr (map (\<lambda>(p, l). (js_join ''.'' p, l)) (kleaves x))"
    by simp
  have ok: "\<forall>(p, l)\<in>set (kleaves x). p \<noteq> [] \<and> (\<forall>k\<in>set p. dotless k)"
    using kleaves_paths [OF assms(1)] by blast
  have "expand_loop numeric ''.'' (map (\<lambda>(p, l). (js_join ''.'' p, l)) (kleaves x))
          (VObject ''Object'' [])
      = Inr (VObject ''Object'' x)"
    using expand_loop_kexpand [OF ok] kexpand_kleaves [OF assms, of "[]" "''Object''"]
    by simp
  then have e: "expandObject numeric (map (\<lambda>(p, l). (js_join ''.'' p, l)) (kleaves x)) ''.'' = Inr x"
    by (simp add: expandObject_def)
  from f e show ?thesis by simp
qed

text \<open>
  C8, as stated, fails: an empty nested object has no leaf, so flattening drops its key
  and the expansion does not bring it back.
\<close>

theorem flatten_expand_empty_counterexample:
  "keys_ok decimal_key [(''a'', VObject ''Object'' [])]
   \<and> flattenObject [(''a'', VObject ''Object'' [])] True ''.'' [] = Inr []
   \<and> expandObject decimal_key [] ''.'' = Inr []
   \<and> ([] :: props) \<noteq> [(''a'', VObject ''Object'' [])]"
  by (simp add: flattenObject_def expandObject_def decimal_key_def proto_member_def
      object_prototype_names_def)

text \<open>
  A key that names a member of \<open>Object.prototype\<close> is lost as well: \<open>expandObject\<close>
  finds the inherited member and assigns nothing.
\<close>

lemma expand_inherited_key:
  "flattenObject [(''toString'', VStr ''abc'')] True ''.'' [] = Inr [(''toString'', VStr ''abc'')]
   \<and> expandObject decimal_key [(''toString'', VStr ''abc'')] ''.'' = Inr []"
  by (simp add: flattenObject_def expandObject_def js_assign_def js_put_def js_split_def
      proto_member_def object_prototype_names_def)

text \<open>
  C8, amended: for every plain nested object whose keys at every level are distinct,
  non-numeric, without a dot and not the name of a member of \<open>Object.prototype\<close>, whose
  nested plain objects are all non-empty and whose leaves are neither \<open>null\<close> nor
  \<open>undefined\<close>, \<open>flattenObject(x, true)\<close> returns and \<open>expandObject\<close> of its result
  is \<open>x\<close>, arrays and the other leaves unchanged and the keys in their order.
\<close>

theorem flatten_expand_roundtrip:
  assumes "keys_ok numeric x" "nested_ok x"
  shows "\<exists>flat. flattenObject x True ''.'' [] = Inr flat
     \<and> expandObject numeric flat ''.'' = Inr x"
  using flatten_expand_kleaves [OF assms] by blast

theorem flatten_expand_roundtrip_witness:
  "keys_ok decimal_key
     [(''address'', VObject ''Object''
         [(''street'', VStr ''abcde''), (''tags'', VObject ''Array'' [(''0'', VNum 1)])]),
      (''n'', VNum 0)]
   \<and> nested_ok
     [(''address'', VObject ''Object''
         [(''street'', VStr ''abcde''), (''tags'', VObject ''Array'' [(''0'', VNum 1)])]),
      (''n'', VNum 0)]
   \<and> (\<exists>flat. flattenObject
     [(''address'', VObject ''Object''
         [(''street'', VStr ''abcde''), (''tags'', VObject ''Array'' [(''0'', VNum 1)])]),
      (''n'', VNum 0)] True ''.'' [] = Inr flat
     \<and> expandObject decimal_key flat ''.'' = Inr
     [(''address'', VObject ''Object''
         [(''street'', VStr ''abcde''), (''tags'', VObject ''Array'' [(''0'', VNum 1)])]),
      (''n'', VNum 0)])"
proof -
  have k: "keys_ok decimal_key
     [(''address'', VObject ''Object''
         [(''street'', VStr ''abcde''), (''tags'', VObject ''Array'' [(''0'', VNum 1)])]),
      (''n'', VNum 0)]"
    by (simp add: decimal_key_def proto_member_def object_prototype_names_def)
  have n: "nested_ok
     [(''address'', VObject ''Object''
         [(''street'', VStr ''abcde''), (''tags'', VObject ''Array'' [(''0'', VNum 1)])]),
      (''n'', VNum 0)]"
    by simp
  from k n flatten_expand_roundtrip [OF k n] show ?thesis by blast
qed



subsection \<open>The validator\<close>


lemma keys_js_set: "fst ` set (js_set m k v) = insert k (fst ` set m)"
  by (induction m k v rule: js_set.induct) auto




lemma keys_apply_errors: "fst ` set (apply_errors errs new) = fst ` set errs \<union> fst ` set new"
  unfolding apply_errors_def
  by (induction new arbitrary: errs) (auto simp: keys_js_set split: prod.splits)


lemma apply_errors_nonempty: "new \<noteq> [] \<Longrightarrow> apply_errors errs new \<noteq> []"
  using keys_apply_errors [of errs new] by (cases new) auto













lemma sub_value_other: "rtype \<noteq> ''SubModel'' \<Longrightarrow> sub_value e options rules rtype v = v"
  by (simp add: sub_value_def)











































end
